theory Spec2Isabelle
  imports Complex_Main "HOL-Library.Sublist"
begin

section \<open>Python values\<close>

text \<open>
  The fields of a parsed NMEA sentence and of the GPS reader hold \<open>None\<close>, a number or a
  string, and the code tests them by truthiness (\<open>if msg.latitude and msg.longitude\<close>).
  Floats are modelled as rationals; NaN is not modelled.
\<close>

datatype pyval = PNone | PNum rat | PStr string

fun truthy :: "pyval \<Rightarrow> bool" where
  "truthy PNone = False"
| "truthy (PNum x) = (x \<noteq> 0)"
| "truthy (PStr s) = (s \<noteq> [])"

text \<open>\<open>v if v else 0\<close>\<close>

definition or_zero :: "pyval \<Rightarrow> pyval" where
  "or_zero v = (if truthy v then v else PNum 0)"

section \<open>gps/gps\_parser.py: GPSReader\<close>

text \<open>
  What \<open>pynmea2.parse\<close> (an external library) hands back for a GGA sentence: the
  attributes that \<open>read_gps_data\<close> reads. The parser itself is a parameter of the model.
\<close>

record nmea_msg =
  msg_latitude :: pyval
  msg_longitude :: pyval
  msg_altitude :: pyval
  msg_num_sats :: pyval
  msg_gps_qual :: pyval

datatype parse_result = ParseError | OtherError | Parsed nmea_msg

text \<open>
  One poll of the serial port: the port raises, nothing is waiting
  (\<open>in_waiting = 0\<close>), or a decoded and stripped line is read.
\<close>

datatype serial_event = SerialError | NoData | Line string

record gps_reader =
  gps_open :: bool
  current_lat :: pyval
  current_lon :: pyval
  current_alt :: pyval
  satellites :: pyval
  fix_quality :: pyval

text \<open>The dictionary returned by \<open>get_current_position\<close>.\<close>

record position =
  pos_latitude :: pyval
  pos_longitude :: pyval
  pos_altitude :: pyval
  pos_satellites :: pyval
  pos_fix_quality :: pyval

definition GPSReader_init :: gps_reader where
  "GPSReader_init = \<lparr>gps_open = False, current_lat = PNone, current_lon = PNone,
     current_alt = PNone, satellites = PNum 0, fix_quality = PNum 0\<rparr>"

text \<open>\<open>connect\<close>: the flag says whether \<open>serial.Serial(...)\<close> succeeds.\<close>

definition connect :: "bool \<Rightarrow> gps_reader \<Rightarrow> gps_reader \<times> bool" where
  "connect serial_ok g = (if serial_ok then (g\<lparr>gps_open := True\<rparr>, True) else (g, False))"

definition close :: "gps_reader \<Rightarrow> gps_reader" where
  "close g = (if gps_open g then g\<lparr>gps_open := False\<rparr> else g)"

text \<open>
  Lines 44 to 48 of \<open>read_gps_data\<close>: five attribute assignments, one after the other,
  with no lock around them.
\<close>

definition fix_writes :: "nmea_msg \<Rightarrow> (gps_reader \<Rightarrow> gps_reader) list" where
  "fix_writes msg =
     [\<lambda>g. g\<lparr>current_lat := msg_latitude msg\<rparr>,
      \<lambda>g. g\<lparr>current_lon := msg_longitude msg\<rparr>,
      \<lambda>g. g\<lparr>current_alt := or_zero (msg_altitude msg)\<rparr>,
      \<lambda>g. g\<lparr>satellites := or_zero (msg_num_sats msg)\<rparr>,
      \<lambda>g. g\<lparr>fix_quality := or_zero (msg_gps_qual msg)\<rparr>]"

definition apply_writes :: "(gps_reader \<Rightarrow> gps_reader) list \<Rightarrow> gps_reader \<Rightarrow> gps_reader" where
  "apply_writes ws g = fold (\<lambda>w s. w s) ws g"

text \<open>
  The states of the reader object that another thread can find while a fix is being
  stored: before the first assignment, between two assignments, after the last one.
\<close>

definition states_during_update :: "nmea_msg \<Rightarrow> gps_reader \<Rightarrow> gps_reader list" where
  "states_during_update msg g =
     map (\<lambda>k. apply_writes (take k (fix_writes msg)) g) [0..<Suc (length (fix_writes msg))]"

text \<open>
  \<open>read_gps_data\<close>: returns the new reader state and the returned dictionary (the
  position and its \<open>timestamp\<close>), \<open>None\<close> on every other path. \<open>now\<close> is
  \<open>time.time()\<close>.
\<close>

definition read_gps_data ::
  "(string \<Rightarrow> parse_result) \<Rightarrow> rat \<Rightarrow> serial_event \<Rightarrow> gps_reader
     \<Rightarrow> gps_reader \<times> (position \<times> rat) option" where
  "read_gps_data parse now ev g =
     (if \<not> gps_open g then (g, None)
      else case ev of
        SerialError \<Rightarrow> (g, None)
      | NoData \<Rightarrow> (g, None)
      | Line line \<Rightarrow>
          if prefix ''$GPGGA'' line \<or> prefix ''$GNGGA'' line then
            (case parse line of
               ParseError \<Rightarrow> (g, None)
             | OtherError \<Rightarrow> (g, None)
             | Parsed msg \<Rightarrow>
                 if truthy (msg_latitude msg) \<and> truthy (msg_longitude msg) then
                   (let g' = apply_writes (fix_writes msg) g
                    in (g', Some (\<lparr>pos_latitude = current_lat g',
                                    pos_longitude = current_lon g',
                                    pos_altitude = current_alt g',
                                    pos_satellites = satellites g',
                                    pos_fix_quality = fix_quality g'\<rparr>, now)))
                 else (g, None))
          else (g, None))"

definition get_current_position :: "gps_reader \<Rightarrow> position option" where
  "get_current_position g =
     (if truthy (current_lat g) \<and> truthy (current_lon g) then
        Some \<lparr>pos_latitude = current_lat g, pos_longitude = current_lon g,
              pos_altitude = current_alt g, pos_satellites = satellites g,
              pos_fix_quality = fix_quality g\<rparr>
      else None)"

section \<open>inference\_pi.py\<close>

datatype error = ZeroDivisionError

text \<open>Python's \<open>%\<close> on integers, and on floats (rationals here).\<close>

definition py_imod :: "int \<Rightarrow> int \<Rightarrow> error + int" where
  "py_imod a b = (if b = 0 then Inl ZeroDivisionError else Inr (a mod b))"

definition py_fmod :: "rat \<Rightarrow> rat \<Rightarrow> error + rat" where
  "py_fmod x y = (if y = 0 then Inl ZeroDivisionError else Inr (x - y * of_int \<lfloor>x / y\<rfloor>))"

definition LED_PINS :: "(string \<times> nat) list" where
  "LED_PINS = [(''antraknosa'', 17), (''cabai_normal'', 27), (''lalat_buah'', 22)]"

definition VALID_CLASSES :: "string list" where
  "VALID_CLASSES = [''antraknosa'', ''cabai_normal'', ''lalat_buah'']"

text \<open>One box of \<open>results[0].boxes\<close>: \<open>model.names[cls_id]\<close> and \<open>conf\<close>.\<close>

record box =
  cls_name :: string
  conf :: rat

record gps_coords =
  loc_latitude :: pyval
  loc_longitude :: pyval
  loc_altitude :: pyval
  loc_satellites :: pyval

record detection_info =
  timestamp :: rat
  datetime :: string
  det_class :: string
  confidence :: rat
  location :: "gps_coords option"

text \<open>
  The files the program writes: \<open>current_session.json\<close> and
  \<open>detections_<n>.json\<close>. A file holds the list that \<open>json.dump\<close> serialised.
\<close>

datatype path = SessionFile | Archive int

text \<open>
  What the outside world supplies in one iteration of the loop in which \<open>cap.read()\<close>
  returned a frame: the boxes \<open>model.predict\<close> returns if it is called on the frame,
  whether \<open>cv2.waitKey(1)\<close> reports the key q, the value of
  \<open>time.time() - start_time\<close> at line 267, the clock and its formatted string at lines
  311 and 312, and the polls of the serial port (each with its clock) that the GPS
  thread makes before the frame is handled.
\<close>

record frame_obs =
  boxes :: "box list"
  key_q :: bool
  elapsed_time :: rat
  clock :: rat
  clock_str :: string
  gps_polls :: "(rat \<times> serial_event) list"

text \<open>
  One call of \<open>cap.read()\<close>: a KeyboardInterrupt arrives, or a frame is returned. The end
  of the list of calls is \<open>ret = False\<close>.
\<close>

datatype cap_read = Interrupted | Frame frame_obs

text \<open>
  The command line and the machine the program runs on. \<open>--no-display\<close> and
  \<open>--save-video\<close> only drive the window and the video file and are left out.
  \<open>disk_ok n\<close> says whether the n-th attempt to write a file succeeds (a failed attempt
  leaves the file as it was); \<open>shutdown_clock\<close> is \<open>time.time()\<close> at line 392.
\<close>

record params =
  frame_skip :: int
  enable_mqtt :: bool
  enable_gps :: bool
  GPS_AVAILABLE :: bool
  GPIO_AVAILABLE :: bool
  MQTT_AVAILABLE :: bool
  serial_opens :: bool
  broker_reachable :: bool
  camera_opens :: bool
  disk_ok :: "nat \<Rightarrow> bool"
  nmea_parse :: "string \<Rightarrow> parse_result"
  shutdown_clock :: rat

datatype thread_status = Looping | Exited

text \<open>
  The local variables of \<open>run_inference\<close> and what it acts on: the files, the GPIO pins
  that are HIGH, the arguments handed to \<open>control_leds\<close>, the numbers of the frames
  handed to \<open>model.predict\<close>, the events handed to \<open>publish_detection\<close>, the GPS thread
  and the MQTT network loop.
\<close>

record run_state =
  frame_count :: int
  inference_count :: int
  fps_display :: rat
  detections_log :: "detection_info list"
  files :: "path \<Rightarrow> detection_info list option"
  writes :: nat
  gpio_high :: "nat set"
  led_calls :: "string set list"
  predicted :: "int list"
  published :: "detection_info list"
  gps_reader :: "gps_reader option"
  gps_thread_running :: bool
  gps_thread :: "thread_status option"
  mqtt_client :: bool
  mqtt_loop_running :: bool

text \<open>
  \<open>gps_background_reader\<close>: \<open>while gps_thread_running: read_gps_data(); sleep(0.1)\<close>,
  run over the polls that fall into one stretch of time in which the flag has the given
  value. The loop is left only when the flag is found False.
\<close>

fun gps_background_reader ::
  "(string \<Rightarrow> parse_result) \<Rightarrow> bool \<Rightarrow> (rat \<times> serial_event) list \<Rightarrow> gps_reader
     \<Rightarrow> thread_status \<times> gps_reader" where
  "gps_background_reader parse flag [] g = (if flag then Looping else Exited, g)"
| "gps_background_reader parse flag ((now, ev) # polls) g =
     (if flag then gps_background_reader parse flag polls (fst (read_gps_data parse now ev g))
      else (Exited, g))"

definition poll_gps :: "params \<Rightarrow> (rat \<times> serial_event) list \<Rightarrow> run_state \<Rightarrow> run_state" where
  "poll_gps p polls st =
     (case (gps_thread st, gps_reader st) of
        (Some Looping, Some g) \<Rightarrow>
          (let (status, g') = gps_background_reader (nmea_parse p) (gps_thread_running st) polls g
           in st\<lparr>gps_reader := Some g', gps_thread := Some status\<rparr>)
      | _ \<Rightarrow> st)"

text \<open>
  \<open>control_leds\<close>: nothing without GPIO; otherwise every pin LOW, then HIGH the pin of
  each detected class that is a key of \<open>LED_PINS\<close>.
\<close>

definition control_leds :: "bool \<Rightarrow> string set \<Rightarrow> nat set \<Rightarrow> nat set" where
  "control_leds gpio detected_classes high =
     (if \<not> gpio then high else snd ` {e \<in> set LED_PINS. fst e \<in> detected_classes})"

definition cleanup_leds :: "params \<Rightarrow> run_state \<Rightarrow> run_state" where
  "cleanup_leds p st = (if GPIO_AVAILABLE p then st\<lparr>gpio_high := {}\<rparr> else st)"

text \<open>\<open>with open(file, 'w') as f: json.dump(log, f)\<close> inside \<open>try ... except Exception\<close>.\<close>

definition write_json :: "params \<Rightarrow> path \<Rightarrow> detection_info list \<Rightarrow> run_state \<Rightarrow> run_state" where
  "write_json p file content st =
     st\<lparr>files := (if disk_ok p (writes st) then (files st)(file \<mapsto> content) else files st),
        writes := Suc (writes st)\<rparr>"

text \<open>Lines 298 to 316: the dictionary \<open>detection_info\<close>, with the GPS coordinates if any.\<close>

definition detection_event :: "frame_obs \<Rightarrow> box \<Rightarrow> run_state \<Rightarrow> detection_info" where
  "detection_event f b st =
     (let gps_coords =
            (case gps_reader st of
               None \<Rightarrow> None
             | Some g \<Rightarrow>
                 (case get_current_position g of
                    None \<Rightarrow> None
                  | Some gps_data \<Rightarrow>
                      Some \<lparr>loc_latitude = pos_latitude gps_data,
                            loc_longitude = pos_longitude gps_data,
                            loc_altitude = pos_altitude gps_data,
                            loc_satellites = pos_satellites gps_data\<rparr>))
      in \<lparr>timestamp = clock f, datetime = clock_str f, det_class = cls_name b,
          confidence = conf b, location = gps_coords\<rparr>)"

text \<open>Lines 317 to 334: append the event, rewrite the session file, publish.\<close>

definition log_detection :: "params \<Rightarrow> frame_obs \<Rightarrow> box \<Rightarrow> run_state \<Rightarrow> run_state" where
  "log_detection p f b st =
     (let detection_info = detection_event f b st;
          st1 = st\<lparr>detections_log := detections_log st @ [detection_info]\<rparr>;
          st2 = write_json p SessionFile (detections_log st1) st1
      in if mqtt_client st2 then st2\<lparr>published := published st2 @ [detection_info]\<rparr> else st2)"

text \<open>Lines 285 to 334: the loop over the boxes, with \<open>detected_classes\<close>.\<close>

fun process_boxes ::
  "params \<Rightarrow> frame_obs \<Rightarrow> box list \<Rightarrow> string set \<times> run_state \<Rightarrow> string set \<times> run_state" where
  "process_boxes p f [] acc = acc"
| "process_boxes p f (b # bs) (detected_classes, st) =
     (if cls_name b \<notin> set VALID_CLASSES then process_boxes p f bs (detected_classes, st)
      else process_boxes p f bs
             (insert (cls_name b) detected_classes,
              if inference_count st mod 20 = 0 then log_detection p f b st else st))"

text \<open>The boxes of a frame that pass the test of line 291.\<close>

definition known_boxes :: "frame_obs \<Rightarrow> box list" where
  "known_boxes f = filter (\<lambda>b. cls_name b \<in> set VALID_CLASSES) (boxes f)"

text \<open>
  Line 348: \<open>inference_count % (5 * fps_display) == 0 and inference_count > 0\<close>. The
  result says whether the statistics line is printed.
\<close>

definition stats_check :: "int \<Rightarrow> rat \<Rightarrow> error + bool" where
  "stats_check n fps =
     (case py_fmod (of_int n) (5 * fps) of
        Inl e \<Rightarrow> Inl e
      | Inr r \<Rightarrow> Inr (r = 0 \<and> 0 < n))"

datatype ctl = Continue | Break | Raise error

text \<open>Lines 266 to 269: the frames-per-second estimate.\<close>

definition update_fps :: "frame_obs \<Rightarrow> run_state \<Rightarrow> run_state" where
  "update_fps f st =
     (if 0 < elapsed_time f
      then st\<lparr>fps_display := of_int (inference_count st) / elapsed_time f\<rparr>
      else st)"

text \<open>Lines 277 to 337: the boxes of the frame, then \<open>control_leds(detected_classes)\<close>.\<close>

definition handle_detections :: "params \<Rightarrow> frame_obs \<Rightarrow> run_state \<Rightarrow> run_state" where
  "handle_detections p f st =
     (let (detected_classes, st5) = process_boxes p f (boxes f) ({}, st)
      in st5\<lparr>led_calls := led_calls st5 @ [detected_classes],
             gpio_high := control_leds (GPIO_AVAILABLE p) detected_classes (gpio_high st5)\<rparr>)"

text \<open>Lines 249 to 353: a frame that passes the frame-skip test.\<close>

definition process_frame :: "params \<Rightarrow> frame_obs \<Rightarrow> run_state \<Rightarrow> ctl \<times> run_state" where
  "process_frame p f st2 =
     (let st3 = st2\<lparr>inference_count := inference_count st2 + 1,
                    predicted := predicted st2 @ [frame_count st2]\<rparr>;
          st4 = update_fps f st3;
          st6 = handle_detections p f st4
      in case stats_check (inference_count st6) (fps_display st6) of
           Inl e \<Rightarrow> (Raise e, st6)
         | Inr printed \<Rightarrow> (if key_q f then Break else Continue, st6))"

text \<open>Lines 239 to 353: the body of the loop once a frame has been read.\<close>

definition loop_body :: "params \<Rightarrow> frame_obs \<Rightarrow> run_state \<Rightarrow> ctl \<times> run_state" where
  "loop_body p f st0 =
     (let st1 = poll_gps p (gps_polls f) st0;
          st2 = st1\<lparr>frame_count := frame_count st1 + 1\<rparr>
      in case py_imod (frame_count st2) (frame_skip p) of
           Inl e \<Rightarrow> (Raise e, st2)
         | Inr r \<Rightarrow>
             if r \<noteq> 0 then (if key_q f then Break else Continue, st2)
             else process_frame p f st2)"

datatype outcome = Returned | Uncaught error

text \<open>
  Lines 233 to 356: \<open>while True\<close> inside \<open>try\<close>. The loop ends when no frame is returned,
  when q is pressed, on KeyboardInterrupt (caught), or with an exception that is not
  caught and leaves \<open>run_inference\<close> after the \<open>finally\<close> block.
\<close>

fun running :: "params \<Rightarrow> cap_read list \<Rightarrow> run_state \<Rightarrow> outcome \<times> run_state" where
  "running p [] st = (Returned, st)"
| "running p (Interrupted # reads) st = (Returned, st)"
| "running p (Frame f # reads) st =
     (case loop_body p f st of
        (Continue, st') \<Rightarrow> running p reads st'
      | (Break, st') \<Rightarrow> (Returned, st')
      | (Raise e, st') \<Rightarrow> (Uncaught e, st'))"

text \<open>Lines 160 to 206 and 222 to 228: everything before the camera is opened.\<close>

definition starting :: "params \<Rightarrow> (path \<Rightarrow> detection_info list option) \<Rightarrow> run_state" where
  "starting p fs =
     (let gps = (if enable_gps p \<and> GPS_AVAILABLE p
                 then (case connect (serial_opens p) GPSReader_init of
                         (g, True) \<Rightarrow> Some g
                       | (g, False) \<Rightarrow> None)
                 else None);
          mqtt = (enable_mqtt p \<and> MQTT_AVAILABLE p \<and> broker_reachable p)
      in \<lparr>frame_count = 0, inference_count = 0, fps_display = 0, detections_log = [],
          files = fs(SessionFile := None), writes = 0, gpio_high = {}, led_calls = [],
          predicted = [], published = [], gps_reader = gps,
          gps_thread_running = (gps \<noteq> None),
          gps_thread = (if gps \<noteq> None then Some Looping else None),
          mqtt_client = mqtt, mqtt_loop_running = mqtt\<rparr>)"

text \<open>
  Line 392: \<open>f"detections_{int(time.time())}.json"\<close>; the clock is positive, so \<open>int\<close>
  is the floor.
\<close>

definition log_file :: "params \<Rightarrow> path" where
  "log_file p = Archive \<lfloor>shutdown_clock p\<rfloor>"

text \<open>Lines 358 to 416: the \<open>finally\<close> block.\<close>

definition finally_block :: "params \<Rightarrow> run_state \<Rightarrow> run_state" where
  "finally_block p st =
     (let st1 = (if detections_log st \<noteq> []
                 then write_json p (log_file p) (detections_log st)
                        (write_json p SessionFile (detections_log st) st)
                 else st);
          st2 = (if mqtt_client st1 then st1\<lparr>mqtt_loop_running := False\<rparr> else st1);
          st3 = st2\<lparr>gps_reader := map_option close (gps_reader st2)\<rparr>
      in cleanup_leds p st3)"

definition run_inference ::
  "params \<Rightarrow> cap_read list \<Rightarrow> (path \<Rightarrow> detection_info list option) \<Rightarrow> outcome \<times> run_state" where
  "run_inference p reads fs =
     (let st = starting p fs
      in if \<not> camera_opens p then (Returned, cleanup_leds p st)
         else (case running p reads st of (oc, st') \<Rightarrow> (oc, finally_block p st')))"

text \<open>
  What \<open>parser.parse_args()\<close> does with the command line: it rejects it (a missing
  \<open>--model\<close>, a \<open>--frame-skip\<close> that is not an integer, an unknown option) and exits
  with status 2, it prints the help for \<open>-h\<close> and exits with status 0, or it returns the
  arguments.
\<close>

datatype cli = Usage_Error | Help | Args params

text \<open>
  \<open>main\<close> parses the command line, calls \<open>run_inference\<close> and returns; the
  interpreter's exit status is 0 when \<open>main\<close> returns and 1 when an exception is not
  caught. The model file is taken to load.
\<close>

definition main :: "cli \<Rightarrow> cap_read list \<Rightarrow> (path \<Rightarrow> detection_info list option) \<Rightarrow> int" where
  "main argv reads fs =
     (case argv of
        Usage_Error \<Rightarrow> 2
      | Help \<Rightarrow> 0
      | Args p \<Rightarrow> (case fst (run_inference p reads fs) of Returned \<Rightarrow> 0 | Uncaught e \<Rightarrow> 1))"

text \<open>Concrete inputs on which the theorems below are evaluated.\<close>

definition sample_params :: "int \<Rightarrow> params" where
  "sample_params n = \<lparr>frame_skip = n, enable_mqtt = True, enable_gps = True,
     GPS_AVAILABLE = True, GPIO_AVAILABLE = True, MQTT_AVAILABLE = True,
     serial_opens = True, broker_reachable = True, camera_opens = True,
     disk_ok = (\<lambda>k. True), nmea_parse = (\<lambda>line. ParseError), shutdown_clock = 1001 / 10\<rparr>"

definition sample_frame :: "string list \<Rightarrow> frame_obs" where
  "sample_frame names = \<lparr>boxes = map (\<lambda>c. \<lparr>cls_name = c, conf = 9 / 10\<rparr>) names,
     key_q = False, elapsed_time = 1, clock = 100, clock_str = ''2025-01-01 00:00:00'',
     gps_polls = []\<rparr>"


text \<open>
  The sample gate as a property of a state, for runs in which every inference yields k
  (or at least one) boxes of a known class.
\<close>

definition sample_inv_eq :: "nat \<Rightarrow> run_state \<Rightarrow> bool" where
  "sample_inv_eq k s \<longleftrightarrow>
     int (length (detections_log s)) = int k * (inference_count s div 20)"

definition sample_inv_ge :: "run_state \<Rightarrow> bool" where
  "sample_inv_ge s \<longleftrightarrow> inference_count s div 20 \<le> int (length (detections_log s))"

text \<open>
  Properties of a state that every step of a run keeps: only known classes reach the
  log, the publisher, the LEDs and the session file; the session file holds the log
  when every write succeeds; what was published is what was logged.
\<close>

definition known_only :: "run_state \<Rightarrow> bool" where
  "known_only st \<longleftrightarrow>
     (\<forall>d\<in>set (detections_log st). det_class d \<in> set VALID_CLASSES)
     \<and> (\<forall>d\<in>set (published st). det_class d \<in> set VALID_CLASSES)
     \<and> (\<forall>S\<in>set (led_calls st). S \<subseteq> set VALID_CLASSES)
     \<and> (\<forall>l. files st SessionFile = Some l \<longrightarrow> (\<forall>d\<in>set l. det_class d \<in> set VALID_CLASSES))"

definition session_current :: "run_state \<Rightarrow> bool" where
  "session_current s \<longleftrightarrow>
     files s SessionFile = (if detections_log s = [] then None else Some (detections_log s))"

definition published_all :: "run_state \<Rightarrow> bool" where
  "published_all s \<longleftrightarrow> published s = (if mqtt_client s then detections_log s else [])"

text \<open>
  The GPS thread at the end of a run: its flag and its status are what they were when
  the thread was started.
\<close>

definition gps_thread_left_running :: "params \<Rightarrow> run_state \<Rightarrow> bool" where
  "gps_thread_left_running p s \<longleftrightarrow>
     gps_thread_running s = (enable_gps p \<and> GPS_AVAILABLE p \<and> serial_opens p)
     \<and> gps_thread s = (if enable_gps p \<and> GPS_AVAILABLE p \<and> serial_opens p
                       then Some Looping else None)"

text \<open>A cached fix and a newer sentence, for the position cache.\<close>

definition cached_fix :: gps_reader where
  "cached_fix = \<lparr>gps_open = True, current_lat = PNum 7, current_lon = PNum 80,
     current_alt = PNum 12, satellites = PStr ''07'', fix_quality = PNum 1\<rparr>"

definition newer_msg :: nmea_msg where
  "newer_msg = \<lparr>msg_latitude = PNum 8, msg_longitude = PNum 81,
     msg_altitude = PNum 30, msg_num_sats = PStr ''09'', msg_gps_qual = PNum 2\<rparr>"

section \<open>Field lemmas\<close>

lemma write_json_fields:
  "frame_count (write_json p file c st) = frame_count st"
  "inference_count (write_json p file c st) = inference_count st"
  "fps_display (write_json p file c st) = fps_display st"
  "detections_log (write_json p file c st) = detections_log st"
  "gpio_high (write_json p file c st) = gpio_high st"
  "led_calls (write_json p file c st) = led_calls st"
  "predicted (write_json p file c st) = predicted st"
  "published (write_json p file c st) = published st"
  "gps_reader (write_json p file c st) = gps_reader st"
  "gps_thread_running (write_json p file c st) = gps_thread_running st"
  "gps_thread (write_json p file c st) = gps_thread st"
  "mqtt_client (write_json p file c st) = mqtt_client st"
  "mqtt_loop_running (write_json p file c st) = mqtt_loop_running st"
  by (simp_all add: write_json_def)

lemma log_detection_fields:
  "frame_count (log_detection p f b st) = frame_count st"
  "inference_count (log_detection p f b st) = inference_count st"
  "fps_display (log_detection p f b st) = fps_display st"
  "gpio_high (log_detection p f b st) = gpio_high st"
  "led_calls (log_detection p f b st) = led_calls st"
  "predicted (log_detection p f b st) = predicted st"
  "gps_reader (log_detection p f b st) = gps_reader st"
  "gps_thread_running (log_detection p f b st) = gps_thread_running st"
  "gps_thread (log_detection p f b st) = gps_thread st"
  "mqtt_client (log_detection p f b st) = mqtt_client st"
  "mqtt_loop_running (log_detection p f b st) = mqtt_loop_running st"
  by (simp_all add: log_detection_def Let_def write_json_fields)

lemma process_boxes_fields:
  "frame_count (snd (process_boxes p f bs (dc, st))) = frame_count st
   \<and> inference_count (snd (process_boxes p f bs (dc, st))) = inference_count st
   \<and> fps_display (snd (process_boxes p f bs (dc, st))) = fps_display st
   \<and> gpio_high (snd (process_boxes p f bs (dc, st))) = gpio_high st
   \<and> led_calls (snd (process_boxes p f bs (dc, st))) = led_calls st
   \<and> predicted (snd (process_boxes p f bs (dc, st))) = predicted st
   \<and> gps_reader (snd (process_boxes p f bs (dc, st))) = gps_reader st
   \<and> gps_thread_running (snd (process_boxes p f bs (dc, st))) = gps_thread_running st
   \<and> gps_thread (snd (process_boxes p f bs (dc, st))) = gps_thread st
   \<and> mqtt_client (snd (process_boxes p f bs (dc, st))) = mqtt_client st
   \<and> mqtt_loop_running (snd (process_boxes p f bs (dc, st))) = mqtt_loop_running st"
  by (induction bs arbitrary: dc st) (simp_all add: log_detection_fields)

lemma poll_gps_fields:
  "frame_count (poll_gps p polls st) = frame_count st"
  "inference_count (poll_gps p polls st) = inference_count st"
  "fps_display (poll_gps p polls st) = fps_display st"
  "detections_log (poll_gps p polls st) = detections_log st"
  "files (poll_gps p polls st) = files st"
  "writes (poll_gps p polls st) = writes st"
  "gpio_high (poll_gps p polls st) = gpio_high st"
  "led_calls (poll_gps p polls st) = led_calls st"
  "predicted (poll_gps p polls st) = predicted st"
  "published (poll_gps p polls st) = published st"
  "gps_thread_running (poll_gps p polls st) = gps_thread_running st"
  "mqtt_client (poll_gps p polls st) = mqtt_client st"
  "mqtt_loop_running (poll_gps p polls st) = mqtt_loop_running st"
  by (simp_all add: poll_gps_def split: option.splits thread_status.splits prod.splits)

lemma finally_block_fields:
  "frame_count (finally_block p st) = frame_count st"
  "inference_count (finally_block p st) = inference_count st"
  "fps_display (finally_block p st) = fps_display st"
  "detections_log (finally_block p st) = detections_log st"
  "led_calls (finally_block p st) = led_calls st"
  "predicted (finally_block p st) = predicted st"
  "published (finally_block p st) = published st"
  "gps_thread_running (finally_block p st) = gps_thread_running st"
  "gps_thread (finally_block p st) = gps_thread st"
  "mqtt_client (finally_block p st) = mqtt_client st"
  by (simp_all add: finally_block_def cleanup_leds_def Let_def write_json_fields)

section \<open>Process gate\<close>

lemma div_step:
  fixes m n :: int
  assumes "1 \<le> n"
  shows "(m + 1) div n = (if (m + 1) mod n = 0 then m div n + 1 else m div n)"
proof -
  define q where "q = m div n"
  define r where "r = m mod n"
  have n: "0 < n" using assms by simp
  have r: "0 \<le> r" "r < n" using n by (simp_all add: r_def)
  have m: "m = n * q + r" by (simp add: q_def r_def)
  show ?thesis
  proof (cases "r + 1 = n")
    case True
    with m have "m + 1 = n * (q + 1)" by (simp add: algebra_simps)
    with n show ?thesis by (simp add: q_def)
  next
    case False
    with r have lt: "r + 1 < n" by simp
    from r have ge: "0 \<le> r + 1" by simp
    have eq: "m + 1 = n * q + (r + 1)" using m by simp
    have z: "(r + 1) div n = 0" using ge lt by (rule div_pos_pos_trivial)
    have s: "(r + 1) mod n = r + 1" using ge lt by (rule mod_pos_pos_trivial)
    have "(m + 1) div n = (n * q + (r + 1)) div n" by (simp only: eq)
    also have "\<dots> = q + (r + 1) div n"
      using n by (simp only: div_mult_self4 [of n q "r + 1"])
    finally have d: "(m + 1) div n = q" by (simp only: z add_0_right)
    have "(m + 1) mod n = (n * q + (r + 1)) mod n" by (simp only: eq)
    also have "\<dots> = (r + 1) mod n" by (simp only: mod_mult_self4)
    finally have "(m + 1) mod n = r + 1" by (simp only: s)
    with r have "(m + 1) mod n \<noteq> 0" by simp
    with d have "(m + 1) div n = q" "(m + 1) mod n \<noteq> 0" by simp_all
    then show ?thesis by (simp add: q_def)
  qed
qed


lemma update_fps_fields:
  "frame_count (update_fps f st) = frame_count st"
  "inference_count (update_fps f st) = inference_count st"
  "detections_log (update_fps f st) = detections_log st"
  "files (update_fps f st) = files st"
  "writes (update_fps f st) = writes st"
  "gpio_high (update_fps f st) = gpio_high st"
  "led_calls (update_fps f st) = led_calls st"
  "predicted (update_fps f st) = predicted st"
  "published (update_fps f st) = published st"
  "gps_reader (update_fps f st) = gps_reader st"
  "gps_thread_running (update_fps f st) = gps_thread_running st"
  "gps_thread (update_fps f st) = gps_thread st"
  "mqtt_client (update_fps f st) = mqtt_client st"
  "mqtt_loop_running (update_fps f st) = mqtt_loop_running st"
  by (simp_all add: update_fps_def)

lemma handle_detections_fields:
  "frame_count (handle_detections p f st) = frame_count st"
  "inference_count (handle_detections p f st) = inference_count st"
  "fps_display (handle_detections p f st) = fps_display st"
  "predicted (handle_detections p f st) = predicted st"
  "gps_reader (handle_detections p f st) = gps_reader st"
  "gps_thread_running (handle_detections p f st) = gps_thread_running st"
  "gps_thread (handle_detections p f st) = gps_thread st"
  "mqtt_client (handle_detections p f st) = mqtt_client st"
  "mqtt_loop_running (handle_detections p f st) = mqtt_loop_running st"
  "detections_log (handle_detections p f st)
     = detections_log (snd (process_boxes p f (boxes f) ({}, st)))"
  "published (handle_detections p f st)
     = published (snd (process_boxes p f (boxes f) ({}, st)))"
  "files (handle_detections p f st) = files (snd (process_boxes p f (boxes f) ({}, st)))"
  "writes (handle_detections p f st) = writes (snd (process_boxes p f (boxes f) ({}, st)))"
  "led_calls (handle_detections p f st)
     = led_calls st @ [fst (process_boxes p f (boxes f) ({}, st))]"
  by (simp_all add: handle_detections_def split_beta process_boxes_fields)

lemma process_frame_snd:
  "snd (process_frame p f st) =
     handle_detections p f
       (update_fps f (st\<lparr>inference_count := inference_count st + 1,
                          predicted := predicted st @ [frame_count st]\<rparr>))"
  by (simp add: process_frame_def Let_def split: sum.splits)

lemma loop_body_snd:
  "snd (loop_body p f st) =
     (if frame_skip p \<noteq> 0 \<and> (frame_count st + 1) mod frame_skip p = 0
      then snd (process_frame p f ((poll_gps p (gps_polls f) st)\<lparr>frame_count := frame_count st + 1\<rparr>))
      else (poll_gps p (gps_polls f) st)\<lparr>frame_count := frame_count st + 1\<rparr>)"
  by (simp add: loop_body_def Let_def py_imod_def poll_gps_fields)

lemma loop_body_counts:
  "frame_count (snd (loop_body p f st)) = frame_count st + 1"
  "predicted (snd (loop_body p f st)) =
     (if frame_skip p \<noteq> 0 \<and> (frame_count st + 1) mod frame_skip p = 0
      then predicted st @ [frame_count st + 1] else predicted st)"
  "inference_count (snd (loop_body p f st)) =
     (if frame_skip p \<noteq> 0 \<and> (frame_count st + 1) mod frame_skip p = 0
      then inference_count st + 1 else inference_count st)"
  by (simp_all add: loop_body_snd process_frame_snd handle_detections_fields
        update_fps_fields poll_gps_fields)




lemma cleanup_leds_fields:
  "frame_count (cleanup_leds p st) = frame_count st"
  "inference_count (cleanup_leds p st) = inference_count st"
  "detections_log (cleanup_leds p st) = detections_log st"
  "files (cleanup_leds p st) = files st"
  "led_calls (cleanup_leds p st) = led_calls st"
  "predicted (cleanup_leds p st) = predicted st"
  "published (cleanup_leds p st) = published st"
  "gps_reader (cleanup_leds p st) = gps_reader st"
  "gps_thread_running (cleanup_leds p st) = gps_thread_running st"
  "gps_thread (cleanup_leds p st) = gps_thread st"
  by (simp_all add: cleanup_leds_def)




section \<open>Invariants of the loop\<close>

lemma log_detection_log:
  "detections_log (log_detection p f b st) = detections_log st @ [detection_event f b st]"
  by (simp add: log_detection_def Let_def write_json_fields)

lemma log_detection_published:
  "published (log_detection p f b st) =
     (if mqtt_client st then published st @ [detection_event f b st] else published st)"
  by (simp add: log_detection_def Let_def write_json_fields)

lemma log_detection_files:
  "files (log_detection p f b st) =
     (if disk_ok p (writes st) then (files st)(SessionFile \<mapsto> detections_log st @ [detection_event f b st])
      else files st)"
  by (simp add: log_detection_def Let_def write_json_def)

lemma detection_event_class: "det_class (detection_event f b st) = cls_name b"
  by (simp add: detection_event_def Let_def)

lemma process_boxes_log_length:
  "length (detections_log (snd (process_boxes p f bs (dc, st)))) =
     length (detections_log st) +
       (if inference_count st mod 20 = 0
        then length (filter (\<lambda>b. cls_name b \<in> set VALID_CLASSES) bs) else 0)"
  by (induction bs arbitrary: dc st) (simp_all add: log_detection_fields log_detection_log)

lemma loop_body_log_length:
  "length (detections_log (snd (loop_body p f st))) =
     (if frame_skip p \<noteq> 0 \<and> (frame_count st + 1) mod frame_skip p = 0
      then length (detections_log st)
             + (if (inference_count st + 1) mod 20 = 0 then length (known_boxes f) else 0)
      else length (detections_log st))"
  by (simp add: loop_body_snd process_frame_snd handle_detections_fields update_fps_fields
        poll_gps_fields known_boxes_def process_boxes_log_length)

lemma running_invariant:
  assumes "\<And>f s. Frame f \<in> set reads \<Longrightarrow> I s \<Longrightarrow> I (snd (loop_body p f s))"
    and "I st"
  shows "I (snd (running p reads st))"
  using assms
proof (induction reads arbitrary: st)
  case Nil
  then show ?case by simp
next
  case (Cons r reads)
  show ?case
  proof (cases r)
    case Interrupted
    with Cons.prems show ?thesis by simp
  next
    case (Frame f)
    obtain c st' where lb: "loop_body p f st = (c, st')" by (cases "loop_body p f st")
    from Cons.prems(1) [of f st] Cons.prems(2) Frame lb have inv': "I st'" by simp
    have "I (snd (running p reads st'))"
      using Cons.IH [OF _ inv'] Cons.prems(1) by simp
    with inv' lb Frame show ?thesis by (cases c) simp_all
  qed
qed

lemma run_inference_invariant:
  assumes "\<And>f s. Frame f \<in> set reads \<Longrightarrow> I s \<Longrightarrow> I (snd (loop_body p f s))"
    and "I (starting p fs)"
    and "\<And>s. I s \<Longrightarrow> I (finally_block p s)"
    and "\<And>s. I s \<Longrightarrow> I (cleanup_leds p s)"
  shows "I (snd (run_inference p reads fs))"
proof (cases "camera_opens p")
  case False
  with assms(2,4) show ?thesis by (simp add: run_inference_def Let_def)
next
  case True
  from running_invariant [of reads I p, OF assms(1) assms(2)]
  have "I (snd (running p reads (starting p fs)))" by simp
  from assms(3) [OF this] True show ?thesis
    by (simp add: run_inference_def Let_def split_beta)
qed

lemma count_step_eq:
  fixes n i :: int
  assumes "1 \<le> n" "int L = int k * (i div n)"
  shows "int (L + (if (i + 1) mod n = 0 then k else 0)) = int k * ((i + 1) div n)"
proof (cases "(i + 1) mod n = 0")
  case True
  with div_step [OF assms(1), of i] have "(i + 1) div n = i div n + 1" by simp
  with True assms(2) show ?thesis by (simp add: algebra_simps)
next
  case False
  with div_step [OF assms(1), of i] have "(i + 1) div n = i div n" by simp
  with False assms(2) show ?thesis by simp
qed

lemma count_step_ge:
  fixes n i :: int
  assumes "1 \<le> n" "i div n \<le> int L" "1 \<le> k"
  shows "(i + 1) div n \<le> int (L + (if (i + 1) mod n = 0 then k else 0))"
  using assms by (simp add: div_step)

lemma sample_step_eq:
  assumes k: "length (known_boxes f) = k" and e: "sample_inv_eq k s"
  shows "sample_inv_eq k (snd (loop_body p f s))"
proof (cases "frame_skip p \<noteq> 0 \<and> (frame_count s + 1) mod frame_skip p = 0")
  case False
  then have "inference_count (snd (loop_body p f s)) = inference_count s"
    "length (detections_log (snd (loop_body p f s))) = length (detections_log s)"
    by (simp_all only: loop_body_counts loop_body_log_length if_False)
  with e show ?thesis by (simp only: sample_inv_eq_def)
next
  case True
  then have a: "inference_count (snd (loop_body p f s)) = inference_count s + 1"
    by (simp only: loop_body_counts if_True simp_thms)
  from True have b: "length (detections_log (snd (loop_body p f s))) =
      length (detections_log s) + (if (inference_count s + 1) mod 20 = 0 then k else 0)"
    by (simp only: loop_body_log_length k if_True simp_thms)
  from e have "int (length (detections_log s)) = int k * (inference_count s div 20)"
    by (simp only: sample_inv_eq_def)
  from count_step_eq [of 20, OF _ this] have
    "int (length (detections_log s) + (if (inference_count s + 1) mod 20 = 0 then k else 0))
       = int k * ((inference_count s + 1) div 20)" by simp
  then show ?thesis by (simp only: sample_inv_eq_def a b)
qed

lemma sample_step_ge:
  assumes k: "1 \<le> length (known_boxes f)" and e: "sample_inv_ge s"
  shows "sample_inv_ge (snd (loop_body p f s))"
proof (cases "frame_skip p \<noteq> 0 \<and> (frame_count s + 1) mod frame_skip p = 0")
  case False
  then have "inference_count (snd (loop_body p f s)) = inference_count s"
    "length (detections_log (snd (loop_body p f s))) = length (detections_log s)"
    by (simp_all only: loop_body_counts loop_body_log_length if_False)
  with e show ?thesis by (simp only: sample_inv_ge_def)
next
  case True
  then have a: "inference_count (snd (loop_body p f s)) = inference_count s + 1"
    by (simp only: loop_body_counts if_True simp_thms)
  from True have b: "length (detections_log (snd (loop_body p f s))) =
      length (detections_log s)
        + (if (inference_count s + 1) mod 20 = 0 then length (known_boxes f) else 0)"
    by (simp only: loop_body_log_length if_True simp_thms)
  from e have "inference_count s div 20 \<le> int (length (detections_log s))"
    by (simp only: sample_inv_ge_def)
  from count_step_ge [of 20, OF _ this k] have
    "(inference_count s + 1) div 20
       \<le> int (length (detections_log s)
              + (if (inference_count s + 1) mod 20 = 0 then length (known_boxes f) else 0))"
    by simp
  then show ?thesis by (simp only: sample_inv_ge_def a b)
qed

lemma process_frame_fst:
  assumes "0 < elapsed_time f" "0 \<le> inference_count st"
  shows "fst (process_frame p f st) = (if key_q f then Break else Continue)"
proof -
  let ?st6 = "snd (process_frame p f st)"
  have ic: "inference_count ?st6 = inference_count st + 1"
    by (simp add: process_frame_snd handle_detections_fields update_fps_fields)
  have "fps_display ?st6 = of_int (inference_count st + 1) / elapsed_time f"
    using assms(1)
    by (simp add: process_frame_snd handle_detections_fields update_fps_def)
  moreover have "(of_int (inference_count st + 1) :: rat) > 0" using assms(2) by simp
  ultimately have "5 * fps_display ?st6 \<noteq> 0" using assms(1) by simp
  then obtain b where "stats_check (inference_count ?st6) (fps_display ?st6) = Inr b"
    by (simp add: stats_check_def py_fmod_def)
  then show ?thesis
    unfolding process_frame_snd by (simp add: process_frame_def Let_def)
qed

lemma loop_body_fst:
  assumes "frame_skip p \<noteq> 0" "0 < elapsed_time f" "0 \<le> inference_count st"
  shows "fst (loop_body p f st) = (if key_q f then Break else Continue)"
  using assms process_frame_fst [of f "(poll_gps p (gps_polls f) st)\<lparr>frame_count := frame_count st + 1\<rparr>" p]
  by (simp add: loop_body_def Let_def py_imod_def poll_gps_fields)

lemma loop_body_inference_count_mono:
  "0 \<le> inference_count st \<Longrightarrow> 0 \<le> inference_count (snd (loop_body p f st))"
  by (simp add: loop_body_counts)

lemma running_steady:
  assumes "frame_skip p \<noteq> 0"
  shows "\<forall>r\<in>set reads. \<exists>f. r = Frame f \<and> \<not> key_q f \<and> 0 < elapsed_time f \<Longrightarrow>
         0 \<le> inference_count st \<Longrightarrow>
         fst (running p reads st) = Returned
         \<and> frame_count (snd (running p reads st)) = frame_count st + int (length reads)"
proof (induction reads arbitrary: st)
  case Nil
  then show ?case by simp
next
  case (Cons r reads)
  from Cons.prems(1) obtain f where r: "r = Frame f" and q: "\<not> key_q f" and e: "0 < elapsed_time f"
    by auto
  obtain c st' where lb: "loop_body p f st = (c, st')" by (cases "loop_body p f st")
  from loop_body_fst [OF assms e Cons.prems(2)] q lb have c: "c = Continue" by simp
  from lb have st': "st' = snd (loop_body p f st)" by simp
  have ic: "0 \<le> inference_count st'"
    unfolding st' using Cons.prems(2) by (rule loop_body_inference_count_mono)
  have fc: "frame_count st' = frame_count st + 1" unfolding st' by (simp add: loop_body_counts)
  from Cons.prems(1) have rest: "\<forall>r\<in>set reads. \<exists>f. r = Frame f \<and> \<not> key_q f \<and> 0 < elapsed_time f"
    by simp
  from Cons.IH [OF rest ic] fc show ?case by (simp add: r lb c)
qed

lemma run_inference_every_frame:
  assumes "frame_skip p = 1"
  shows "inference_count (snd (run_inference p reads fs)) = frame_count (snd (run_inference p reads fs))"
proof (rule run_inference_invariant [of reads "\<lambda>s. inference_count s = frame_count s" p fs])
  fix f s assume "inference_count s = frame_count (s::run_state)"
  with assms show "inference_count (snd (loop_body p f s)) = frame_count (snd (loop_body p f s))"
    by (simp add: loop_body_counts)
next
  show "inference_count (starting p fs) = frame_count (starting p fs)"
    by (simp add: starting_def Let_def)
next
  fix s :: run_state assume "inference_count s = frame_count s"
  then show "inference_count (finally_block p s) = frame_count (finally_block p s)"
    by (simp only: finally_block_fields)
next
  fix s :: run_state assume "inference_count s = frame_count s"
  then show "inference_count (cleanup_leds p s) = frame_count (cleanup_leds p s)"
    by (simp only: cleanup_leds_fields)
qed

lemma steady_run:
  assumes "frame_skip p = 1" "camera_opens p" "\<not> key_q f" "0 < elapsed_time f"
  shows "fst (run_inference p (replicate n (Frame f)) fs) = Returned
         \<and> frame_count (snd (run_inference p (replicate n (Frame f)) fs)) = int n
         \<and> inference_count (snd (run_inference p (replicate n (Frame f)) fs)) = int n"
proof -
  from assms(1) have nz: "frame_skip p \<noteq> 0" by simp
  have all: "\<forall>r\<in>set (replicate n (Frame f)). \<exists>g. r = Frame g \<and> \<not> key_q g \<and> 0 < elapsed_time g"
    using assms(3,4) by auto
  have ic0: "0 \<le> inference_count (starting p fs)" by (simp add: starting_def Let_def)
  have fc0: "frame_count (starting p fs) = 0" by (simp add: starting_def Let_def)
  from running_steady [OF nz all ic0] fc0
  have "fst (running p (replicate n (Frame f)) (starting p fs)) = Returned"
    "frame_count (snd (running p (replicate n (Frame f)) (starting p fs))) = int n" by simp_all
  then have "fst (run_inference p (replicate n (Frame f)) fs) = Returned"
    "frame_count (snd (run_inference p (replicate n (Frame f)) fs)) = int n"
    using assms(2) by (simp_all add: run_inference_def Let_def split_beta finally_block_fields)
  with run_inference_every_frame [OF assms(1), of "replicate n (Frame f)" fs] show ?thesis by simp
qed

lemma sample_frame_facts:
  "\<not> key_q (sample_frame names)" "0 < elapsed_time (sample_frame names)"
  "known_boxes (sample_frame names)
     = map (\<lambda>c. \<lparr>cls_name = c, conf = 9 / 10\<rparr>) (filter (\<lambda>c. c \<in> set VALID_CLASSES) names)"
  by (simp_all add: sample_frame_def known_boxes_def filter_map comp_def)

lemma sample_params_facts:
  "frame_skip (sample_params n) = n" "camera_opens (sample_params n)"
  "disk_ok (sample_params n) k" "enable_gps (sample_params n)" "GPS_AVAILABLE (sample_params n)"
  "serial_opens (sample_params n)" "enable_mqtt (sample_params n)" "MQTT_AVAILABLE (sample_params n)"
  "broker_reachable (sample_params n)" "GPIO_AVAILABLE (sample_params n)"
  by (simp_all add: sample_params_def)

section \<open>Sample gate\<close>

lemma run_sample_eq:
  assumes "\<forall>f. Frame f \<in> set reads \<longrightarrow> length (known_boxes f) = k"
  shows "sample_inv_eq k (snd (run_inference p reads fs))"
proof (rule run_inference_invariant [of reads "sample_inv_eq k" p fs])
  fix f s assume "Frame f \<in> set reads" "sample_inv_eq k s"
  with assms sample_step_eq [of f k s p] show "sample_inv_eq k (snd (loop_body p f s))" by blast
next
  show "sample_inv_eq k (starting p fs)" by (simp add: starting_def Let_def sample_inv_eq_def)
next
  fix s assume "sample_inv_eq k s"
  then show "sample_inv_eq k (finally_block p s)"
    by (simp only: sample_inv_eq_def finally_block_fields)
next
  fix s assume "sample_inv_eq k s"
  then show "sample_inv_eq k (cleanup_leds p s)"
    by (simp only: sample_inv_eq_def cleanup_leds_fields)
qed

lemma run_sample_ge:
  assumes "\<forall>f. Frame f \<in> set reads \<longrightarrow> 1 \<le> length (known_boxes f)"
  shows "sample_inv_ge (snd (run_inference p reads fs))"
proof (rule run_inference_invariant [of reads sample_inv_ge p fs])
  fix f s assume "Frame f \<in> set reads" "sample_inv_ge s"
  with assms sample_step_ge [of f s p] show "sample_inv_ge (snd (loop_body p f s))" by blast
next
  show "sample_inv_ge (starting p fs)" by (simp add: starting_def Let_def sample_inv_ge_def)
next
  fix s assume "sample_inv_ge s"
  then show "sample_inv_ge (finally_block p s)"
    by (simp only: sample_inv_ge_def finally_block_fields)
next
  fix s assume "sample_inv_ge s"
  then show "sample_inv_ge (cleanup_leds p s)"
    by (simp only: sample_inv_ge_def cleanup_leds_fields)
qed

text \<open>
  C2, amended. The sample gate is the test \<open>inference_count % 20 == 0\<close> inside the loop
  over the boxes, so a frame that passes the process gate adds one event per box of a
  known class when the new inference counter is a multiple of 20, and none otherwise.
  Over a run with I inferences: if every inference yields exactly k boxes of a known
  class, \<open>k * (I div 20)\<close> events are created (\<open>I div 20\<close> for k = 1); if every inference
  yields at least one, at least \<open>I div 20\<close> are.
\<close>

theorem sampled_events:
  "length (detections_log (snd (loop_body p f st))) =
     (if frame_skip p \<noteq> 0 \<and> (frame_count st + 1) mod frame_skip p = 0
      then length (detections_log st)
             + (if (inference_count st + 1) mod 20 = 0 then length (known_boxes f) else 0)
      else length (detections_log st))
   \<and> ((\<forall>f. Frame f \<in> set reads \<longrightarrow> length (known_boxes f) = k) \<longrightarrow>
        int (length (detections_log (snd (run_inference p reads fs))))
          = int k * (inference_count (snd (run_inference p reads fs)) div 20))
   \<and> ((\<forall>f. Frame f \<in> set reads \<longrightarrow> 1 \<le> length (known_boxes f)) \<longrightarrow>
        inference_count (snd (run_inference p reads fs)) div 20
          \<le> int (length (detections_log (snd (run_inference p reads fs)))))"
proof (intro conjI impI)
  show "length (detections_log (snd (loop_body p f st))) =
     (if frame_skip p \<noteq> 0 \<and> (frame_count st + 1) mod frame_skip p = 0
      then length (detections_log st)
             + (if (inference_count st + 1) mod 20 = 0 then length (known_boxes f) else 0)
      else length (detections_log st))"
    by (rule loop_body_log_length)
next
  assume "\<forall>f. Frame f \<in> set reads \<longrightarrow> length (known_boxes f) = k"
  from run_sample_eq [OF this, of p fs]
  show "int (length (detections_log (snd (run_inference p reads fs))))
          = int k * (inference_count (snd (run_inference p reads fs)) div 20)"
    by (simp only: sample_inv_eq_def)
next
  assume "\<forall>f. Frame f \<in> set reads \<longrightarrow> 1 \<le> length (known_boxes f)"
  from run_sample_ge [OF this, of p fs]
  show "inference_count (snd (run_inference p reads fs)) div 20
          \<le> int (length (detections_log (snd (run_inference p reads fs))))"
    by (simp only: sample_inv_ge_def)
qed

theorem sampled_events_witness:
  "length (known_boxes (sample_frame [''person'', ''antraknosa''])) = 1
   \<and> inference_count (snd (run_inference (sample_params 1)
        (replicate 20 (Frame (sample_frame [''person'', ''antraknosa'']))) Map.empty)) = 20
   \<and> length (detections_log (snd (run_inference (sample_params 1)
        (replicate 20 (Frame (sample_frame [''person'', ''antraknosa'']))) Map.empty))) = 1"
proof -
  let ?f = "sample_frame [''person'', ''antraknosa'']"
  let ?st = "snd (run_inference (sample_params 1) (replicate 20 (Frame ?f)) Map.empty)"
  have k: "length (known_boxes ?f) = 1"
    by (simp add: sample_frame_facts VALID_CLASSES_def)
  then have h1: "\<forall>f. Frame f \<in> set (replicate 20 (Frame ?f)) \<longrightarrow> length (known_boxes f) = 1"
    by simp
  from k have h2: "\<forall>f. Frame f \<in> set (replicate 20 (Frame ?f)) \<longrightarrow> 1 \<le> length (known_boxes f)"
    by simp
  from steady_run [of "sample_params 1" ?f 20 Map.empty]
  have ic: "inference_count ?st = 20" by (simp add: sample_frame_facts sample_params_facts)
  from sampled_events [of "sample_params 1" ?f "starting (sample_params 1) Map.empty"
      "replicate 20 (Frame ?f)" 1 Map.empty] h1 h2
  have "int (length (detections_log ?st)) = 1" by (simp add: ic)
  then have "length (detections_log ?st) = 1" by simp
  with k ic show ?thesis by simp
qed

text \<open>
  C2 as stated fails: 20 frames, every one processed, each with two boxes of a known
  class, give two events at the twentieth inference, not \<open>20 div 20 = 1\<close>.
\<close>

theorem sampled_events_counterexample:
  "length (known_boxes (sample_frame [''antraknosa'', ''lalat_buah''])) = 2
   \<and> inference_count (snd (run_inference (sample_params 1)
        (replicate 20 (Frame (sample_frame [''antraknosa'', ''lalat_buah'']))) Map.empty)) = 20
   \<and> length (detections_log (snd (run_inference (sample_params 1)
        (replicate 20 (Frame (sample_frame [''antraknosa'', ''lalat_buah'']))) Map.empty))) = 2
   \<and> int (length (detections_log (snd (run_inference (sample_params 1)
        (replicate 20 (Frame (sample_frame [''antraknosa'', ''lalat_buah'']))) Map.empty))))
       \<noteq> inference_count (snd (run_inference (sample_params 1)
        (replicate 20 (Frame (sample_frame [''antraknosa'', ''lalat_buah'']))) Map.empty)) div 20"
proof -
  let ?f = "sample_frame [''antraknosa'', ''lalat_buah'']"
  let ?st = "snd (run_inference (sample_params 1) (replicate 20 (Frame ?f)) Map.empty)"
  have k: "length (known_boxes ?f) = 2"
    by (simp add: sample_frame_facts VALID_CLASSES_def)
  from steady_run [of "sample_params 1" ?f 20 Map.empty]
  have ic: "inference_count ?st = 20" by (simp add: sample_frame_facts sample_params_facts)
  have "\<forall>f. Frame f \<in> set (replicate 20 (Frame ?f)) \<longrightarrow> length (known_boxes f) = 2"
    using k by simp
  from run_sample_eq [OF this, of "sample_params 1" Map.empty]
  have "int (length (detections_log ?st)) = 2" by (simp add: sample_inv_eq_def ic)
  then have len: "length (detections_log ?st) = 2" by simp
  from k ic len show ?thesis by simp
qed

section \<open>Known labels and the session file\<close>

lemma log_detection_known_only:
  assumes "cls_name b \<in> set VALID_CLASSES" "known_only st"
  shows "known_only (log_detection p f b st)"
  using assms
  by (auto simp: known_only_def log_detection_log log_detection_published log_detection_files
        log_detection_fields detection_event_class)

lemma process_boxes_known_only:
  "dc \<subseteq> set VALID_CLASSES \<Longrightarrow> known_only st \<Longrightarrow>
     fst (process_boxes p f bs (dc, st)) \<subseteq> set VALID_CLASSES
     \<and> known_only (snd (process_boxes p f bs (dc, st)))"
proof (induction bs arbitrary: dc st)
  case Nil
  then show ?case by simp
next
  case (Cons b bs)
  show ?case
  proof (cases "cls_name b \<in> set VALID_CLASSES")
    case False
    with Cons.IH [OF Cons.prems] show ?thesis by simp
  next
    case True
    with Cons.prems(1) have dc': "insert (cls_name b) dc \<subseteq> set VALID_CLASSES" by simp
    have st': "known_only (if inference_count st mod 20 = 0 then log_detection p f b st else st)"
      using log_detection_known_only [OF True Cons.prems(2)] Cons.prems(2) by simp
    from Cons.IH [OF dc' st'] True show ?thesis by simp
  qed
qed

lemma handle_detections_known_only:
  assumes "known_only s"
  shows "known_only (handle_detections p f s)"
proof -
  let ?pb = "process_boxes p f (boxes f) ({}, s)"
  have e: "{} \<subseteq> set VALID_CLASSES" by simp
  from process_boxes_known_only [OF e assms, of p f "boxes f"]
  have a: "fst ?pb \<subseteq> set VALID_CLASSES" and b: "known_only (snd ?pb)" by blast+
  from b have b1: "\<forall>d\<in>set (detections_log (snd ?pb)). det_class d \<in> set VALID_CLASSES"
    and b2: "\<forall>d\<in>set (published (snd ?pb)). det_class d \<in> set VALID_CLASSES"
    and b4: "\<forall>l. files (snd ?pb) SessionFile = Some l
               \<longrightarrow> (\<forall>d\<in>set l. det_class d \<in> set VALID_CLASSES)"
    unfolding known_only_def by blast+
  from assms have "\<forall>S\<in>set (led_calls s). S \<subseteq> set VALID_CLASSES"
    unfolding known_only_def by blast
  with a have b3: "\<forall>S\<in>set (led_calls s @ [fst ?pb]). S \<subseteq> set VALID_CLASSES" by simp
  show ?thesis
    unfolding known_only_def handle_detections_fields
    using b1 b2 b3 b4 by blast
qed

lemma loop_body_known_only:
  assumes "known_only st"
  shows "known_only (snd (loop_body p f st))"
proof -
  let ?st2 = "(poll_gps p (gps_polls f) st)\<lparr>frame_count := frame_count st + 1\<rparr>"
  have k2: "known_only ?st2" using assms by (simp add: known_only_def poll_gps_fields)
  then have "known_only (update_fps f (?st2\<lparr>inference_count := inference_count ?st2 + 1,
                          predicted := predicted ?st2 @ [frame_count ?st2]\<rparr>))"
    by (simp add: known_only_def update_fps_fields)
  then have "known_only (snd (process_frame p f ?st2))"
    unfolding process_frame_snd by (rule handle_detections_known_only)
  with k2 show ?thesis by (simp add: loop_body_snd)
qed

lemma write_json_known_only:
  assumes "known_only st" "\<forall>d\<in>set c. det_class d \<in> set VALID_CLASSES"
  shows "file = SessionFile \<or> file = log_file p \<Longrightarrow> known_only (write_json p file c st)"
  using assms by (auto simp: known_only_def write_json_def log_file_def)

lemma finally_block_known_only:
  assumes "known_only st"
  shows "known_only (finally_block p st)"
proof -
  from assms have l: "\<forall>d\<in>set (detections_log st). det_class d \<in> set VALID_CLASSES"
    by (simp add: known_only_def)
  let ?w = "write_json p (log_file p) (detections_log st)
              (write_json p SessionFile (detections_log st) st)"
  have "known_only ?w"
    by (intro write_json_known_only assms l) simp_all
  with assms have "known_only (if detections_log st \<noteq> [] then ?w else st)" by simp
  then show ?thesis
    by (simp add: finally_block_def Let_def known_only_def cleanup_leds_def)
qed

lemma run_inference_known_only: "known_only (snd (run_inference p reads fs))"
proof (rule run_inference_invariant [of reads known_only p fs])
  fix f s assume "known_only s"
  then show "known_only (snd (loop_body p f s))" by (rule loop_body_known_only)
next
  show "known_only (starting p fs)" by (simp add: known_only_def starting_def Let_def)
next
  fix s assume "known_only s" then show "known_only (finally_block p s)"
    by (rule finally_block_known_only)
next
  fix s assume "known_only s" then show "known_only (cleanup_leds p s)"
    by (simp add: known_only_def cleanup_leds_def)
qed

lemma log_detection_session_current:
  assumes "disk_ok p (writes st)"
  shows "session_current (log_detection p f b st)"
  using assms by (simp add: session_current_def log_detection_files log_detection_log)

lemma log_detection_published_all:
  assumes "published_all st"
  shows "published_all (log_detection p f b st)"
  using assms
  by (simp add: published_all_def log_detection_published log_detection_log log_detection_fields)

lemma process_boxes_session_current:
  assumes "\<forall>n. disk_ok p n"
  shows "session_current st \<Longrightarrow> session_current (snd (process_boxes p f bs (dc, st)))"
proof (induction bs arbitrary: dc st)
  case Nil
  then show ?case by simp
next
  case (Cons b bs)
  from assms have "session_current (log_detection p f b st)"
    by (simp add: log_detection_session_current)
  with Cons.prems have
    "session_current (if inference_count st mod 20 = 0 then log_detection p f b st else st)"
    by simp
  from Cons.IH [OF this] Cons.IH [OF Cons.prems] show ?case by simp
qed

lemma process_boxes_published_all:
  "published_all st \<Longrightarrow> published_all (snd (process_boxes p f bs (dc, st)))"
proof (induction bs arbitrary: dc st)
  case Nil
  then show ?case by simp
next
  case (Cons b bs)
  from Cons.prems have
    "published_all (if inference_count st mod 20 = 0 then log_detection p f b st else st)"
    by (simp add: log_detection_published_all)
  from Cons.IH [OF this] Cons.IH [OF Cons.prems] show ?case by simp
qed

lemma process_boxes_log_prefix:
  "prefix (detections_log st) (detections_log (snd (process_boxes p f bs (dc, st))))"
proof (induction bs arbitrary: dc st)
  case Nil
  show ?case by simp
next
  case (Cons b bs)
  have "prefix (detections_log st) (detections_log (log_detection p f b st))"
    by (simp add: log_detection_log)
  from prefix_order.trans [OF this Cons.IH [of "log_detection p f b st"]] Cons.IH [of st]
  show ?case by simp
qed

lemma loop_body_lift:
  assumes dep: "\<And>s s'. detections_log s' = detections_log s \<Longrightarrow> files s' = files s \<Longrightarrow>
                  published s' = published s \<Longrightarrow> mqtt_client s' = mqtt_client s \<Longrightarrow> I s \<Longrightarrow> I s'"
    and boxes: "\<And>s. I s \<Longrightarrow> I (snd (process_boxes p f (boxes f) ({}, s)))"
    and st: "I st"
  shows "I (snd (loop_body p f st))"
proof -
  let ?st2 = "(poll_gps p (gps_polls f) st)\<lparr>frame_count := frame_count st + 1\<rparr>"
  let ?st4 = "update_fps f (?st2\<lparr>inference_count := inference_count ?st2 + 1,
                          predicted := predicted ?st2 @ [frame_count ?st2]\<rparr>)"
  have i2: "I ?st2" by (rule dep [OF _ _ _ _ st]) (simp_all add: poll_gps_fields)
  have i4: "I ?st4" by (rule dep [OF _ _ _ _ st]) (simp_all add: update_fps_fields poll_gps_fields)
  have i5: "I (snd (process_boxes p f (boxes f) ({}, ?st4)))" using i4 by (rule boxes)
  have i6: "I (handle_detections p f ?st4)"
    by (rule dep [OF _ _ _ _ i5]) (simp_all add: handle_detections_fields process_boxes_fields)
  show ?thesis
  proof (cases "frame_skip p \<noteq> 0 \<and> (frame_count st + 1) mod frame_skip p = 0")
    case True
    then have "snd (loop_body p f st) = handle_detections p f ?st4"
      by (simp only: loop_body_snd process_frame_snd if_True simp_thms)
    with i6 show ?thesis by simp
  next
    case False
    then have "snd (loop_body p f st) = ?st2" by (simp only: loop_body_snd if_False)
    with i2 show ?thesis by simp
  qed
qed

lemma loop_body_session_current:
  assumes "\<forall>n. disk_ok p n" "session_current st"
  shows "session_current (snd (loop_body p f st))"
proof (rule loop_body_lift [of session_current p f st])
  fix s s' :: run_state
  assume "detections_log s' = detections_log s" "files s' = files s" "session_current s"
  then show "session_current s'" by (simp add: session_current_def)
next
  fix s assume "session_current s"
  then show "session_current (snd (process_boxes p f (boxes f) ({}, s)))"
    by (rule process_boxes_session_current [OF assms(1)])
next
  show "session_current st" by (rule assms(2))
qed

lemma loop_body_published_all:
  assumes "published_all st"
  shows "published_all (snd (loop_body p f st))"
proof (rule loop_body_lift [of published_all p f st])
  fix s s' :: run_state
  assume "detections_log s' = detections_log s" "published s' = published s"
    "mqtt_client s' = mqtt_client s" "published_all s"
  then show "published_all s'" by (simp add: published_all_def)
next
  fix s assume "published_all s"
  then show "published_all (snd (process_boxes p f (boxes f) ({}, s)))"
    by (rule process_boxes_published_all)
next
  show "published_all st" by (rule assms)
qed

lemma loop_body_log_prefix:
  "prefix (detections_log st) (detections_log (snd (loop_body p f st)))"
proof (rule loop_body_lift [of "\<lambda>s. prefix (detections_log st) (detections_log s)" p f st])
  fix s s' :: run_state
  assume "detections_log s' = detections_log s" "prefix (detections_log st) (detections_log s)"
  then show "prefix (detections_log st) (detections_log s')" by simp
next
  fix s :: run_state assume "prefix (detections_log st) (detections_log s)"
  from prefix_order.trans [OF this process_boxes_log_prefix [of s p f "boxes f" "{}"]]
  show "prefix (detections_log st) (detections_log (snd (process_boxes p f (boxes f) ({}, s))))" .
next
  show "prefix (detections_log st) (detections_log st)" by simp
qed

lemma running_session_current:
  assumes "\<forall>n. disk_ok p n"
  shows "session_current (snd (running p reads (starting p fs)))"
proof (rule running_invariant [of reads session_current p "starting p fs"])
  fix f s assume "session_current s"
  then show "session_current (snd (loop_body p f s))"
    by (rule loop_body_session_current [OF assms])
next
  show "session_current (starting p fs)" by (simp add: session_current_def starting_def Let_def)
qed

lemma run_inference_published_all:
  "published_all (snd (run_inference p reads fs))"
proof (rule run_inference_invariant [of reads published_all p fs])
  fix f s assume "published_all s"
  then show "published_all (snd (loop_body p f s))" by (rule loop_body_published_all)
next
  show "published_all (starting p fs)" by (simp add: published_all_def starting_def Let_def)
next
  fix s assume "published_all s"
  then show "published_all (finally_block p s)"
    by (simp add: published_all_def finally_block_fields)
next
  fix s assume "published_all s"
  then show "published_all (cleanup_leds p s)"
    by (simp add: published_all_def cleanup_leds_def)
qed

lemma run_inference_log:
  assumes "camera_opens p"
  shows "detections_log (snd (run_inference p reads fs))
           = detections_log (snd (running p reads (starting p fs)))"
  using assms by (simp add: run_inference_def Let_def split_beta finally_block_fields)

lemma finally_block_session_current:
  assumes "\<forall>n. disk_ok p n" "session_current s"
  shows "session_current (finally_block p s)"
  using assms
  by (simp add: session_current_def finally_block_def Let_def cleanup_leds_def write_json_def
        log_file_def)

lemma run_inference_session_current:
  assumes "\<forall>n. disk_ok p n"
  shows "session_current (snd (run_inference p reads fs))"
proof (rule run_inference_invariant [of reads session_current p fs])
  fix f s assume "session_current s"
  then show "session_current (snd (loop_body p f s))"
    by (rule loop_body_session_current [OF assms])
next
  show "session_current (starting p fs)" by (simp add: session_current_def starting_def Let_def)
next
  fix s assume "session_current s"
  then show "session_current (finally_block p s)"
    by (rule finally_block_session_current [OF assms])
next
  fix s assume "session_current s"
  then show "session_current (cleanup_leds p s)"
    by (simp add: session_current_def cleanup_leds_def)
qed

lemma loop_body_led_calls_length:
  "length (led_calls (snd (loop_body p f st))) =
     (if frame_skip p \<noteq> 0 \<and> (frame_count st + 1) mod frame_skip p = 0
      then length (led_calls st) + 1 else length (led_calls st))"
  by (simp add: loop_body_snd process_frame_snd handle_detections_fields update_fps_fields
        poll_gps_fields)

lemma run_inference_led_calls_length:
  "int (length (led_calls (snd (run_inference p reads fs))))
     = inference_count (snd (run_inference p reads fs))"
proof (rule run_inference_invariant
    [of reads "\<lambda>s. int (length (led_calls s)) = inference_count s" p fs])
  fix f and s :: run_state assume "int (length (led_calls s)) = inference_count s"
  then show "int (length (led_calls (snd (loop_body p f s)))) = inference_count (snd (loop_body p f s))"
    by (simp add: loop_body_led_calls_length loop_body_counts)
next
  show "int (length (led_calls (starting p fs))) = inference_count (starting p fs)"
    by (simp add: starting_def Let_def)
next
  fix s :: run_state assume "int (length (led_calls s)) = inference_count s"
  then show "int (length (led_calls (finally_block p s))) = inference_count (finally_block p s)"
    by (simp only: finally_block_fields)
next
  fix s :: run_state assume "int (length (led_calls s)) = inference_count s"
  then show "int (length (led_calls (cleanup_leds p s))) = inference_count (cleanup_leds p s)"
    by (simp only: cleanup_leds_fields)
qed

lemma run_inference_mqtt_client:
  "mqtt_client (snd (run_inference p reads fs))
     = (enable_mqtt p \<and> MQTT_AVAILABLE p \<and> broker_reachable p)"
proof (rule run_inference_invariant
    [of reads "\<lambda>s. mqtt_client s = (enable_mqtt p \<and> MQTT_AVAILABLE p \<and> broker_reachable p)" p fs])
  fix f and s :: run_state
  assume "mqtt_client s = (enable_mqtt p \<and> MQTT_AVAILABLE p \<and> broker_reachable p)"
  then show "mqtt_client (snd (loop_body p f s))
      = (enable_mqtt p \<and> MQTT_AVAILABLE p \<and> broker_reachable p)"
    by (simp add: loop_body_snd process_frame_snd handle_detections_fields update_fps_fields
          poll_gps_fields)
next
  show "mqtt_client (starting p fs) = (enable_mqtt p \<and> MQTT_AVAILABLE p \<and> broker_reachable p)"
    by (simp add: starting_def Let_def)
next
  fix s :: run_state
  assume "mqtt_client s = (enable_mqtt p \<and> MQTT_AVAILABLE p \<and> broker_reachable p)"
  then show "mqtt_client (finally_block p s)
      = (enable_mqtt p \<and> MQTT_AVAILABLE p \<and> broker_reachable p)"
    by (simp only: finally_block_fields)
next
  fix s :: run_state
  assume "mqtt_client s = (enable_mqtt p \<and> MQTT_AVAILABLE p \<and> broker_reachable p)"
  then show "mqtt_client (cleanup_leds p s)
      = (enable_mqtt p \<and> MQTT_AVAILABLE p \<and> broker_reachable p)"
    by (simp add: cleanup_leds_def)
qed

lemma sample_run:
  "fst (run_inference (sample_params 1)
        (replicate 20 (Frame (sample_frame [''person'', ''antraknosa'']))) Map.empty) = Returned"
  "inference_count (snd (run_inference (sample_params 1)
        (replicate 20 (Frame (sample_frame [''person'', ''antraknosa'']))) Map.empty)) = 20"
  "length (detections_log (snd (run_inference (sample_params 1)
        (replicate 20 (Frame (sample_frame [''person'', ''antraknosa'']))) Map.empty))) = 1"
  "length (led_calls (snd (run_inference (sample_params 1)
        (replicate 20 (Frame (sample_frame [''person'', ''antraknosa'']))) Map.empty))) = 20"
  "published (snd (run_inference (sample_params 1)
        (replicate 20 (Frame (sample_frame [''person'', ''antraknosa'']))) Map.empty))
     = detections_log (snd (run_inference (sample_params 1)
        (replicate 20 (Frame (sample_frame [''person'', ''antraknosa'']))) Map.empty))"
  "files (snd (run_inference (sample_params 1)
        (replicate 20 (Frame (sample_frame [''person'', ''antraknosa'']))) Map.empty)) SessionFile
     = Some (detections_log (snd (run_inference (sample_params 1)
        (replicate 20 (Frame (sample_frame [''person'', ''antraknosa'']))) Map.empty)))"
proof -
  let ?f = "sample_frame [''person'', ''antraknosa'']"
  let ?r = "run_inference (sample_params 1) (replicate 20 (Frame ?f)) Map.empty"
  from steady_run [of "sample_params 1" ?f 20 Map.empty]
  show r: "fst ?r = Returned" and ic: "inference_count (snd ?r) = 20"
    by (simp_all add: sample_frame_facts sample_params_facts)
  have k: "length (known_boxes ?f) = 1"
    by (simp add: sample_frame_facts VALID_CLASSES_def)
  then have "\<forall>f. Frame f \<in> set (replicate 20 (Frame ?f)) \<longrightarrow> length (known_boxes f) = 1"
    by simp
  from run_sample_eq [OF this, of "sample_params 1" Map.empty]
  have "int (length (detections_log (snd ?r))) = 1" by (simp add: sample_inv_eq_def ic)
  then show len: "length (detections_log (snd ?r)) = 1" by simp
  from run_inference_led_calls_length [of "sample_params 1" "replicate 20 (Frame ?f)" Map.empty]
  show "length (led_calls (snd ?r)) = 20" by (simp add: ic)
  from run_inference_published_all [of "sample_params 1" "replicate 20 (Frame ?f)" Map.empty]
    run_inference_mqtt_client [of "sample_params 1" "replicate 20 (Frame ?f)" Map.empty]
  show "published (snd ?r) = detections_log (snd ?r)"
    by (simp add: published_all_def sample_params_facts)
  have "\<forall>n. disk_ok (sample_params 1) n" by (simp add: sample_params_facts)
  from run_inference_session_current [OF this, of "replicate 20 (Frame ?f)" Map.empty] len
  show "files (snd ?r) SessionFile = Some (detections_log (snd ?r))"
    by (auto simp: session_current_def)
qed

text \<open>
  C3. In every run, whatever labels the classifier returns, every event in the session
  log, every event handed to \<open>publish_detection\<close>, every set of classes handed to
  \<open>control_leds\<close> and every event in \<open>current_session.json\<close> carries a class of
  \<open>VALID_CLASSES\<close>: a box of any other class is skipped at line 292.
\<close>

theorem unknown_labels_discarded:
  "(\<forall>d\<in>set (detections_log (snd (run_inference p reads fs))). det_class d \<in> set VALID_CLASSES)
   \<and> (\<forall>d\<in>set (published (snd (run_inference p reads fs))). det_class d \<in> set VALID_CLASSES)
   \<and> (\<forall>S\<in>set (led_calls (snd (run_inference p reads fs))). S \<subseteq> set VALID_CLASSES)
   \<and> (\<forall>l. files (snd (run_inference p reads fs)) SessionFile = Some l
         \<longrightarrow> (\<forall>d\<in>set l. det_class d \<in> set VALID_CLASSES))"
  using run_inference_known_only [of p reads fs] by (simp add: known_only_def)

theorem unknown_labels_discarded_witness:
  "cls_name (hd (boxes (sample_frame [''person'', ''antraknosa'']))) = ''person''
   \<and> ''person'' \<notin> set VALID_CLASSES
   \<and> detections_log (snd (run_inference (sample_params 1)
        (replicate 20 (Frame (sample_frame [''person'', ''antraknosa'']))) Map.empty)) \<noteq> []
   \<and> det_class (hd (detections_log (snd (run_inference (sample_params 1)
        (replicate 20 (Frame (sample_frame [''person'', ''antraknosa'']))) Map.empty))))
       \<in> set VALID_CLASSES
   \<and> det_class (hd (published (snd (run_inference (sample_params 1)
        (replicate 20 (Frame (sample_frame [''person'', ''antraknosa'']))) Map.empty))))
       \<in> set VALID_CLASSES
   \<and> led_calls (snd (run_inference (sample_params 1)
        (replicate 20 (Frame (sample_frame [''person'', ''antraknosa'']))) Map.empty)) \<noteq> []
   \<and> hd (led_calls (snd (run_inference (sample_params 1)
        (replicate 20 (Frame (sample_frame [''person'', ''antraknosa'']))) Map.empty)))
       \<subseteq> set VALID_CLASSES
   \<and> files (snd (run_inference (sample_params 1)
        (replicate 20 (Frame (sample_frame [''person'', ''antraknosa'']))) Map.empty)) SessionFile
       = Some (detections_log (snd (run_inference (sample_params 1)
        (replicate 20 (Frame (sample_frame [''person'', ''antraknosa'']))) Map.empty)))"
proof -
  let ?st = "snd (run_inference (sample_params 1)
        (replicate 20 (Frame (sample_frame [''person'', ''antraknosa'']))) Map.empty)"
  have a: "cls_name (hd (boxes (sample_frame [''person'', ''antraknosa'']))) = ''person''"
    by (simp add: sample_frame_def)
  have b: "''person'' \<notin> set VALID_CLASSES" by (simp add: VALID_CLASSES_def)
  from sample_run(3) have ne: "detections_log ?st \<noteq> []" by auto
  from sample_run(4) have le: "led_calls ?st \<noteq> []" by auto
  note u = unknown_labels_discarded [of "sample_params 1"
      "replicate 20 (Frame (sample_frame [''person'', ''antraknosa'']))" Map.empty]
  from u ne have c: "det_class (hd (detections_log ?st)) \<in> set VALID_CLASSES" by simp
  from u ne sample_run(5) have d: "det_class (hd (published ?st)) \<in> set VALID_CLASSES" by simp
  from u le have e: "hd (led_calls ?st) \<subseteq> set VALID_CLASSES" by simp
  from a b ne c d le e sample_run(6) show ?thesis by blast
qed

text \<open>
  C5. One append (lines 317 to 324) adds the event at the end of the in-memory log and,
  when the write succeeds, leaves \<open>current_session.json\<close> holding the whole log; the log
  only grows. When the loop ends after appends that all succeeded, the file holds
  exactly the events appended, in the order of creation (and does not exist when none
  was appended).
\<close>

theorem session_store_append:
  "detections_log (log_detection p f b st) = detections_log st @ [detection_event f b st]
   \<and> (disk_ok p (writes st) \<longrightarrow>
        files (log_detection p f b st) SessionFile
          = Some (detections_log st @ [detection_event f b st]))
   \<and> prefix (detections_log st) (detections_log (snd (loop_body p f st)))
   \<and> ((\<forall>n. disk_ok p n) \<longrightarrow>
        files (snd (running p reads (starting p fs))) SessionFile
          = (if detections_log (snd (running p reads (starting p fs))) = [] then None
             else Some (detections_log (snd (running p reads (starting p fs))))))"
proof (intro conjI impI)
  show "detections_log (log_detection p f b st) = detections_log st @ [detection_event f b st]"
    by (rule log_detection_log)
next
  assume "disk_ok p (writes st)"
  then show "files (log_detection p f b st) SessionFile
          = Some (detections_log st @ [detection_event f b st])"
    by (simp add: log_detection_files)
next
  show "prefix (detections_log st) (detections_log (snd (loop_body p f st)))"
    by (rule loop_body_log_prefix)
next
  assume "\<forall>n. disk_ok p n"
  from running_session_current [OF this, of reads fs]
  show "files (snd (running p reads (starting p fs))) SessionFile
          = (if detections_log (snd (running p reads (starting p fs))) = [] then None
             else Some (detections_log (snd (running p reads (starting p fs)))))"
    by (simp only: session_current_def)
qed

theorem session_store_append_witness:
  "disk_ok (sample_params 1) 0
   \<and> length (detections_log (snd (running (sample_params 1)
        (replicate 20 (Frame (sample_frame [''person'', ''antraknosa''])))
        (starting (sample_params 1) Map.empty)))) = 1
   \<and> files (snd (running (sample_params 1)
        (replicate 20 (Frame (sample_frame [''person'', ''antraknosa''])))
        (starting (sample_params 1) Map.empty))) SessionFile
       = Some (detections_log (snd (running (sample_params 1)
        (replicate 20 (Frame (sample_frame [''person'', ''antraknosa''])))
        (starting (sample_params 1) Map.empty))))
   \<and> files (log_detection (sample_params 1) (sample_frame [''person'', ''antraknosa''])
        \<lparr>cls_name = ''antraknosa'', conf = 9 / 10\<rparr> (starting (sample_params 1) Map.empty))
        SessionFile
       = Some [detection_event (sample_frame [''person'', ''antraknosa''])
                 \<lparr>cls_name = ''antraknosa'', conf = 9 / 10\<rparr> (starting (sample_params 1) Map.empty)]"
proof -
  let ?p = "sample_params 1"
  let ?f = "sample_frame [''person'', ''antraknosa'']"
  let ?b = "\<lparr>cls_name = ''antraknosa'', conf = 9 / 10\<rparr>"
  let ?s0 = "starting ?p Map.empty"
  let ?st = "snd (running ?p (replicate 20 (Frame ?f)) ?s0)"
  have d: "\<forall>n. disk_ok ?p n" by (simp add: sample_params_facts)
  have d0: "disk_ok ?p (writes ?s0)" by (simp add: sample_params_facts)
  have l0: "detections_log ?s0 = []" by (simp add: starting_def Let_def)
  from run_inference_log [of ?p "replicate 20 (Frame ?f)" Map.empty] sample_run(3)
  have len: "length (detections_log ?st) = 1" by (simp add: sample_params_facts)
  then have ne: "detections_log ?st \<noteq> []" by auto
  note t = session_store_append [of ?p ?f ?b ?s0 "replicate 20 (Frame ?f)" Map.empty]
  from t d ne have a: "files ?st SessionFile = Some (detections_log ?st)" by simp
  from t d0 l0 have b: "files (log_detection ?p ?f ?b ?s0) SessionFile
       = Some [detection_event ?f ?b ?s0]" by simp
  from d len a b show ?thesis by simp
qed

section \<open>Statistics line\<close>

lemma stats_check_zero: "stats_check n 0 = Inl ZeroDivisionError"
  by (simp add: stats_check_def py_fmod_def)

lemma zero_elapsed_run:
  "fst (run_inference (sample_params 1)
        [Frame ((sample_frame [''antraknosa''])\<lparr>elapsed_time := 0\<rparr>)] Map.empty)
       = Uncaught ZeroDivisionError"
  "inference_count (snd (run_inference (sample_params 1)
        [Frame ((sample_frame [''antraknosa''])\<lparr>elapsed_time := 0\<rparr>)] Map.empty)) = 1"
  "fps_display (snd (run_inference (sample_params 1)
        [Frame ((sample_frame [''antraknosa''])\<lparr>elapsed_time := 0\<rparr>)] Map.empty)) = 0"
proof -
  let ?f = "(sample_frame [''antraknosa''])\<lparr>elapsed_time := 0\<rparr>"
  let ?s0 = "starting (sample_params 1) Map.empty"
  let ?st2 = "(poll_gps (sample_params 1) (gps_polls ?f) ?s0)\<lparr>frame_count := frame_count ?s0 + 1\<rparr>"
  have f0: "fps_display ?s0 = 0" "inference_count ?s0 = 0" "frame_count ?s0 = 0"
    by (simp_all add: starting_def Let_def)
  have st: "snd (loop_body (sample_params 1) ?f ?s0) = snd (process_frame (sample_params 1) ?f ?st2)"
    by (simp add: loop_body_snd sample_params_facts f0)
  have fps: "fps_display (snd (process_frame (sample_params 1) ?f ?st2)) = 0"
    by (simp add: process_frame_snd handle_detections_fields update_fps_def poll_gps_fields f0)
  have ic: "inference_count (snd (process_frame (sample_params 1) ?f ?st2)) = 1"
    by (simp add: process_frame_snd handle_detections_fields update_fps_fields poll_gps_fields f0)
  have "fst (process_frame (sample_params 1) ?f ?st2) = Raise ZeroDivisionError"
    using fps ic stats_check_zero [of 1] unfolding process_frame_snd
    by (simp add: process_frame_def Let_def)
  then have lb: "fst (loop_body (sample_params 1) ?f ?s0) = Raise ZeroDivisionError"
    by (simp add: loop_body_def Let_def py_imod_def sample_params_facts poll_gps_fields f0)
  obtain c s where cs: "loop_body (sample_params 1) ?f ?s0 = (c, s)"
    by (cases "loop_body (sample_params 1) ?f ?s0")
  with lb st fps ic have c: "c = Raise ZeroDivisionError" and s: "fps_display s = 0" "inference_count s = 1"
    by simp_all
  have r: "running (sample_params 1) [Frame ?f] ?s0 = (Uncaught ZeroDivisionError, s)"
    by (simp add: cs c)
  have "run_inference (sample_params 1) [Frame ?f] Map.empty
          = (Uncaught ZeroDivisionError, finally_block (sample_params 1) s)"
    by (simp add: run_inference_def Let_def r sample_params_facts del: running.simps)
  with s show "fst (run_inference (sample_params 1) [Frame ?f] Map.empty) = Uncaught ZeroDivisionError"
    "inference_count (snd (run_inference (sample_params 1) [Frame ?f] Map.empty)) = 1"
    "fps_display (snd (run_inference (sample_params 1) [Frame ?f] Map.empty)) = 0"
    by (simp_all add: finally_block_fields)
qed

text \<open>
  C9. The statistics test of line 348 is a modulo by \<open>5 * fps_display\<close> with no guard:
  whenever \<open>fps_display\<close> is 0 it raises ZeroDivisionError, whatever the inference
  count. This happens in a run: when the clock has not advanced at the first inference
  (\<open>elapsed_time > 0\<close> is false), \<open>fps_display\<close> keeps its initial value 0 and the
  exception leaves \<open>run_inference\<close>.
\<close>

theorem stats_check_divides_by_zero:
  "stats_check n 0 = Inl ZeroDivisionError
   \<and> fst (run_inference (sample_params 1)
        [Frame ((sample_frame [''antraknosa''])\<lparr>elapsed_time := 0\<rparr>)] Map.empty)
       = Uncaught ZeroDivisionError
   \<and> inference_count (snd (run_inference (sample_params 1)
        [Frame ((sample_frame [''antraknosa''])\<lparr>elapsed_time := 0\<rparr>)] Map.empty)) = 1
   \<and> fps_display (snd (run_inference (sample_params 1)
        [Frame ((sample_frame [''antraknosa''])\<lparr>elapsed_time := 0\<rparr>)] Map.empty)) = 0"
  using stats_check_zero [of n] zero_elapsed_run by simp

section \<open>Exit status and shutdown\<close>

lemma run_inference_camera:
  "camera_opens p \<Longrightarrow> run_inference p reads fs
     = (fst (running p reads (starting p fs)), finally_block p (snd (running p reads (starting p fs))))"
  "\<not> camera_opens p \<Longrightarrow> run_inference p reads fs = (Returned, cleanup_leds p (starting p fs))"
  by (simp_all add: run_inference_def Let_def split_beta del: running.simps)

text \<open>
  C7 as stated fails: when no camera can be opened, \<open>run_inference\<close> prints an error,
  cleans up the LEDs and returns, \<open>main\<close> returns, and the exit status is 0.
\<close>

theorem exit_code_counterexample:
  "\<not> camera_opens ((sample_params 1)\<lparr>camera_opens := False\<rparr>)
   \<and> main (Args ((sample_params 1)\<lparr>camera_opens := False\<rparr>)) [] Map.empty = 0"
  by (simp add: main_def run_inference_camera)

text \<open>
  C7, amended. The exit status is 0 after a normal stop of the loop, and it is also 0
  when the camera cannot be opened.
\<close>

theorem exit_code:
  "(\<not> camera_opens p \<longrightarrow> main (Args p) reads fs = 0)
   \<and> (camera_opens p \<and> fst (running p reads (starting p fs)) = Returned \<longrightarrow>
        main (Args p) reads fs = 0)"
  by (simp add: main_def run_inference_camera)

theorem exit_code_witness:
  "main (Args ((sample_params 1)\<lparr>camera_opens := False\<rparr>)) [] Map.empty = 0
   \<and> camera_opens (sample_params 1)
   \<and> fst (running (sample_params 1)
        (replicate 20 (Frame (sample_frame [''person'', ''antraknosa''])))
        (starting (sample_params 1) Map.empty)) = Returned
   \<and> main (Args (sample_params 1))
        (replicate 20 (Frame (sample_frame [''person'', ''antraknosa'']))) Map.empty = 0"
proof -
  let ?pf = "(sample_params 1)\<lparr>camera_opens := False\<rparr>"
  let ?p = "sample_params 1"
  let ?r20 = "replicate 20 (Frame (sample_frame [''person'', ''antraknosa'']))"
  have c: "camera_opens ?p" by (simp add: sample_params_facts)
  have nf: "\<not> camera_opens ?pf" by simp
  from sample_run(1) run_inference_camera(1) [OF c, of ?r20 Map.empty]
  have n: "fst (running ?p ?r20 (starting ?p Map.empty)) = Returned" by simp
  from exit_code [of ?pf "[]" Map.empty] nf have 1: "main (Args ?pf) [] Map.empty = 0" by blast
  from exit_code [of ?p ?r20 Map.empty] c n have 2: "main (Args ?p) ?r20 Map.empty = 0" by blast
  from 1 c n 2 show ?thesis by blast
qed

lemma floor_sample: "\<lfloor>1001 / 10 :: rat\<rfloor> = 100" "\<lfloor>1007 / 10 :: rat\<rfloor> = 100"
  by (simp_all add: floor_eq_iff)

text \<open>
  C6 as stated fails. A run whose log is empty at shutdown writes nothing: the guard
  \<open>if detections_log:\<close> skips both writes, so neither \<open>current_session.json\<close> nor an
  archive exists afterwards. And the archive name is the clock in whole seconds, so two
  runs that shut down within the same second get the same name.
\<close>

theorem shutdown_write_counterexample:
  "fst (run_inference (sample_params 1) [] Map.empty) = Returned
   \<and> files (snd (run_inference (sample_params 1) [] Map.empty)) SessionFile = None
   \<and> files (snd (run_inference (sample_params 1) [] Map.empty)) (log_file (sample_params 1)) = None
   \<and> writes (snd (run_inference (sample_params 1) [] Map.empty)) = 0
   \<and> shutdown_clock ((sample_params 1)\<lparr>shutdown_clock := 1007 / 10\<rparr>)
       \<noteq> shutdown_clock (sample_params 1)
   \<and> log_file ((sample_params 1)\<lparr>shutdown_clock := 1007 / 10\<rparr>) = log_file (sample_params 1)"
  by (simp add: run_inference_camera sample_params_facts finally_block_def Let_def
        cleanup_leds_def starting_def log_file_def)
    (simp add: sample_params_def floor_sample)

text \<open>
  C6, amended. In every run in which the camera opened, \<open>run_inference\<close> ends with the
  \<open>finally\<close> block. If the session log is not empty there, the block writes the whole
  log once more to \<open>current_session.json\<close> and to \<open>detections_<n>.json\<close>, n being the
  clock at shutdown in whole seconds (both files hold the log when the two writes
  succeed); if the log is empty it writes nothing. The archive names of two runs differ
  exactly when the runs shut down in different seconds.
\<close>

theorem shutdown_write:
  "(camera_opens p \<longrightarrow>
      snd (run_inference p reads fs) = finally_block p (snd (running p reads (starting p fs))))
   \<and> (detections_log st \<noteq> [] \<and> disk_ok p (writes st) \<and> disk_ok p (Suc (writes st)) \<longrightarrow>
        files (finally_block p st) SessionFile = Some (detections_log st)
        \<and> files (finally_block p st) (log_file p) = Some (detections_log st)
        \<and> writes (finally_block p st) = writes st + 2)
   \<and> (detections_log st = [] \<longrightarrow>
        files (finally_block p st) = files st \<and> writes (finally_block p st) = writes st)
   \<and> (log_file p = log_file p' \<longleftrightarrow> \<lfloor>shutdown_clock p\<rfloor> = \<lfloor>shutdown_clock p'\<rfloor>)"
  by (auto simp: run_inference_camera finally_block_def Let_def cleanup_leds_def write_json_def
        log_file_def)

theorem shutdown_write_witness:
  "camera_opens (sample_params 1)
   \<and> detections_log (snd (run_inference (sample_params 1)
        (replicate 20 (Frame (sample_frame [''person'', ''antraknosa'']))) Map.empty)) \<noteq> []
   \<and> log_file (sample_params 1) = Archive 100
   \<and> files (snd (run_inference (sample_params 1)
        (replicate 20 (Frame (sample_frame [''person'', ''antraknosa'']))) Map.empty)) SessionFile
       = Some (detections_log (snd (run_inference (sample_params 1)
        (replicate 20 (Frame (sample_frame [''person'', ''antraknosa'']))) Map.empty)))
   \<and> files (snd (run_inference (sample_params 1)
        (replicate 20 (Frame (sample_frame [''person'', ''antraknosa'']))) Map.empty)) (Archive 100)
       = Some (detections_log (snd (run_inference (sample_params 1)
        (replicate 20 (Frame (sample_frame [''person'', ''antraknosa'']))) Map.empty)))
   \<and> detections_log (starting (sample_params 1) Map.empty) = []
   \<and> files (finally_block (sample_params 1) (starting (sample_params 1) Map.empty))
       = files (starting (sample_params 1) Map.empty)
   \<and> log_file ((sample_params 1)\<lparr>shutdown_clock := 1007 / 10\<rparr>) = log_file (sample_params 1)"
proof -
  let ?p = "sample_params 1"
  let ?r = "replicate 20 (Frame (sample_frame [''person'', ''antraknosa'']))"
  let ?st = "snd (running ?p ?r (starting ?p Map.empty))"
  have c: "camera_opens ?p" by (simp add: sample_params_facts)
  have d: "disk_ok ?p (writes ?st)" "disk_ok ?p (Suc (writes ?st))"
    by (simp_all add: sample_params_facts)
  from sample_run(3) have ne': "detections_log (snd (run_inference ?p ?r Map.empty)) \<noteq> []"
    by auto
  with run_inference_log [OF c, of ?r Map.empty] have ne: "detections_log ?st \<noteq> []" by simp
  have lf: "log_file ?p = Archive 100" by (simp add: log_file_def sample_params_def floor_sample)
  have l0: "detections_log (starting ?p Map.empty) = []" by (simp add: starting_def Let_def)
  have fl: "\<lfloor>shutdown_clock ?p\<rfloor> = \<lfloor>shutdown_clock (?p\<lparr>shutdown_clock := 1007 / 10\<rparr>)\<rfloor>"
    by (simp add: sample_params_def floor_sample)
  note t = shutdown_write [of ?p ?r Map.empty ?st "?p\<lparr>shutdown_clock := 1007 / 10\<rparr>"]
  from t c have s: "snd (run_inference ?p ?r Map.empty) = finally_block ?p ?st" by blast
  from t ne d have w: "files (finally_block ?p ?st) SessionFile = Some (detections_log ?st)"
    "files (finally_block ?p ?st) (log_file ?p) = Some (detections_log ?st)" by blast+
  from t have "(log_file ?p = log_file (?p\<lparr>shutdown_clock := 1007 / 10\<rparr>))
      = (\<lfloor>shutdown_clock ?p\<rfloor> = \<lfloor>shutdown_clock (?p\<lparr>shutdown_clock := 1007 / 10\<rparr>)\<rfloor>)"
    by blast
  with fl have "log_file ?p = log_file (?p\<lparr>shutdown_clock := 1007 / 10\<rparr>)" by (simp only: simp_thms)
  then have same: "log_file (?p\<lparr>shutdown_clock := 1007 / 10\<rparr>) = log_file ?p" by (rule sym)
  from shutdown_write [of ?p ?r Map.empty "starting ?p Map.empty" ?p] l0
  have e: "files (finally_block ?p (starting ?p Map.empty)) = files (starting ?p Map.empty)"
    by blast
  have lg: "detections_log (snd (run_inference ?p ?r Map.empty)) = detections_log ?st"
    by (rule run_inference_log [OF c])
  from w have w': "files (snd (run_inference ?p ?r Map.empty)) SessionFile
        = Some (detections_log (snd (run_inference ?p ?r Map.empty)))"
    "files (snd (run_inference ?p ?r Map.empty)) (Archive 100)
        = Some (detections_log (snd (run_inference ?p ?r Map.empty)))"
    by (simp_all only: s [symmetric] lg [symmetric] lf [symmetric])
  from c ne' lf w' l0 e same show ?thesis by (simp only: simp_thms)
qed

section \<open>GPS thread\<close>

lemma gps_background_reader_looping:
  "flag \<Longrightarrow> fst (gps_background_reader parse flag polls g) = Looping"
  by (induction parse flag polls g rule: gps_background_reader.induct) simp_all

lemma poll_gps_thread:
  "gps_thread (poll_gps p polls st) =
     (if gps_thread st = Some Looping \<and> gps_reader st \<noteq> None \<and> \<not> gps_thread_running st
      then Some Exited else gps_thread st)"
proof (cases "gps_thread_running st")
  case True
  then show ?thesis
    using gps_background_reader_looping [of True "nmea_parse p" polls]
    by (auto simp: poll_gps_def split_beta split: option.splits thread_status.splits)
next
  case False
  then show ?thesis
    by (cases polls)
      (auto simp: poll_gps_def split_beta split: option.splits thread_status.splits)
qed

lemma run_inference_gps_thread:
  "gps_thread_left_running p (snd (run_inference p reads fs))"
proof (rule run_inference_invariant [of reads "gps_thread_left_running p" p fs])
  fix f s assume "gps_thread_left_running p s"
  then show "gps_thread_left_running p (snd (loop_body p f s))"
    by (simp add: gps_thread_left_running_def loop_body_snd process_frame_snd
          handle_detections_fields update_fps_fields poll_gps_fields poll_gps_thread)
next
  show "gps_thread_left_running p (starting p fs)"
    by (simp add: gps_thread_left_running_def starting_def Let_def connect_def)
next
  fix s assume "gps_thread_left_running p s"
  then show "gps_thread_left_running p (finally_block p s)"
    by (simp add: gps_thread_left_running_def finally_block_fields)
next
  fix s assume "gps_thread_left_running p s"
  then show "gps_thread_left_running p (cleanup_leds p s)"
    by (simp add: gps_thread_left_running_def cleanup_leds_fields)
qed

lemma running_mqtt_loop:
  "mqtt_loop_running (snd (running p reads (starting p fs)))
     = mqtt_client (snd (running p reads (starting p fs)))"
proof (rule running_invariant [of reads "\<lambda>s. mqtt_loop_running s = mqtt_client s" p "starting p fs"])
  fix f and s :: run_state assume "mqtt_loop_running s = mqtt_client s"
  then show "mqtt_loop_running (snd (loop_body p f s)) = mqtt_client (snd (loop_body p f s))"
    by (simp add: loop_body_snd process_frame_snd handle_detections_fields update_fps_fields
          poll_gps_fields)
next
  show "mqtt_loop_running (starting p fs) = mqtt_client (starting p fs)"
    by (simp add: starting_def Let_def)
qed

lemma run_inference_mqtt_loop:
  assumes "camera_opens p"
  shows "\<not> mqtt_loop_running (snd (run_inference p reads fs))"
  using running_mqtt_loop [of p reads fs] assms
  by (simp add: run_inference_camera finally_block_def Let_def cleanup_leds_def write_json_fields)

text \<open>
  C8 fails on the code. The thread's loop tests \<open>gps_thread_running\<close>, which is set to
  True when the thread is started and assigned nowhere else: at the end of a run that
  the GPS thread accompanied, after the \<open>finally\<close> block, the flag is still True and the
  thread is still in its loop (every later poll finds the flag True), while the MQTT
  network loop has been stopped by \<open>loop_stop()\<close>.
\<close>

theorem gps_thread_outlives_run:
  "fst (run_inference (sample_params 1)
        (replicate 20 (Frame (sample_frame [''person'', ''antraknosa'']))) Map.empty) = Returned
   \<and> gps_thread_running (snd (run_inference (sample_params 1)
        (replicate 20 (Frame (sample_frame [''person'', ''antraknosa'']))) Map.empty))
   \<and> gps_thread (snd (run_inference (sample_params 1)
        (replicate 20 (Frame (sample_frame [''person'', ''antraknosa'']))) Map.empty))
       = Some Looping
   \<and> \<not> mqtt_loop_running (snd (run_inference (sample_params 1)
        (replicate 20 (Frame (sample_frame [''person'', ''antraknosa'']))) Map.empty))
   \<and> fst (gps_background_reader (nmea_parse (sample_params 1))
        (gps_thread_running (snd (run_inference (sample_params 1)
           (replicate 20 (Frame (sample_frame [''person'', ''antraknosa'']))) Map.empty)))
        [(101, NoData), (102, Line ''$GPGGA,x'')] GPSReader_init) = Looping"
proof -
  let ?p = "sample_params 1"
  let ?r = "replicate 20 (Frame (sample_frame [''person'', ''antraknosa'']))"
  from run_inference_gps_thread [of ?p ?r Map.empty]
  have a: "gps_thread_running (snd (run_inference ?p ?r Map.empty))"
    and b: "gps_thread (snd (run_inference ?p ?r Map.empty)) = Some Looping"
    by (simp_all add: gps_thread_left_running_def sample_params_facts)
  have c: "\<not> mqtt_loop_running (snd (run_inference ?p ?r Map.empty))"
    by (rule run_inference_mqtt_loop) (simp add: sample_params_facts)
  from gps_background_reader_looping [OF a]
  have d: "fst (gps_background_reader (nmea_parse ?p)
        (gps_thread_running (snd (run_inference ?p ?r Map.empty)))
        [(101, NoData), (102, Line ''$GPGGA,x'')] GPSReader_init) = Looping" .
  from sample_run(1) a b c d show ?thesis by (simp only: simp_thms)
qed

section \<open>Position cache\<close>

lemma apply_writes_fix:
  "apply_writes (fix_writes msg) g =
     g\<lparr>current_lat := msg_latitude msg, current_lon := msg_longitude msg,
       current_alt := or_zero (msg_altitude msg), satellites := or_zero (msg_num_sats msg),
       fix_quality := or_zero (msg_gps_qual msg)\<rparr>"
  by (simp add: apply_writes_def fix_writes_def)

lemma read_gps_data_None:
  "snd (read_gps_data parse now ev g) = None \<Longrightarrow> fst (read_gps_data parse now ev g) = g"
  by (auto simp: read_gps_data_def Let_def split: serial_event.splits parse_result.splits if_splits)

lemma read_gps_data_Some:
  assumes "snd (read_gps_data parse now ev g) = Some (p, t)"
  shows "get_current_position (fst (read_gps_data parse now ev g)) = Some p"
  using assms
  by (auto simp: read_gps_data_def Let_def get_current_position_def apply_writes_fix
           split: serial_event.splits parse_result.splits if_splits)

text \<open>
  C10. A fix whose latitude or longitude is 0 (or None) counts as no fix:
  \<open>read_gps_data\<close> does not store a parsed message whose latitude or longitude is falsy
  (it returns None and leaves the reader as it was), and \<open>get_current_position\<close>
  returns None whenever the cached latitude or longitude is falsy.
\<close>

theorem zero_coordinate_is_no_fix:
  "(parse line = Parsed msg \<and> (\<not> truthy (msg_latitude msg) \<or> \<not> truthy (msg_longitude msg))
      \<longrightarrow> read_gps_data parse now (Line line) g = (g, None))
   \<and> (\<not> truthy (current_lat g) \<or> \<not> truthy (current_lon g)
      \<longrightarrow> get_current_position g = None)
   \<and> \<not> truthy (PNum 0) \<and> \<not> truthy PNone"
  by (auto simp: read_gps_data_def get_current_position_def)

theorem zero_coordinate_is_no_fix_witness:
  "(let parse = (\<lambda>_. Parsed \<lparr>msg_latitude = PNum 0, msg_longitude = PNum 80,
                      msg_altitude = PNum 12, msg_num_sats = PStr ''07'', msg_gps_qual = PNum 1\<rparr>);
        g = \<lparr>gps_open = True, current_lat = PNum 0, current_lon = PNum 80,
             current_alt = PNum 12, satellites = PStr ''07'', fix_quality = PNum 1\<rparr>
    in parse ''$GPGGA,x'' = Parsed \<lparr>msg_latitude = PNum 0, msg_longitude = PNum 80,
                      msg_altitude = PNum 12, msg_num_sats = PStr ''07'', msg_gps_qual = PNum 1\<rparr>
       \<and> \<not> truthy (PNum 0)
       \<and> read_gps_data parse 5 (Line ''$GPGGA,x'') g = (g, None)
       \<and> \<not> truthy (current_lat g)
       \<and> get_current_position g = None)"
  using zero_coordinate_is_no_fix
    [of "\<lambda>_. Parsed \<lparr>msg_latitude = PNum 0, msg_longitude = PNum 80,
                      msg_altitude = PNum 12, msg_num_sats = PStr ''07'', msg_gps_qual = PNum 1\<rparr>"
        "''$GPGGA,x''"
        "\<lparr>msg_latitude = PNum 0, msg_longitude = PNum 80,
                      msg_altitude = PNum 12, msg_num_sats = PStr ''07'', msg_gps_qual = PNum 1\<rparr>"
        5
        "\<lparr>gps_open = True, current_lat = PNum 0, current_lon = PNum 80,
             current_alt = PNum 12, satellites = PStr ''07'', fix_quality = PNum 1\<rparr>"]
  by (simp add: Let_def)

text \<open>
  C4 as stated fails. The background thread stores a fix by five separate assignments
  and the main thread reads the same object with no lock, so between the first and the
  second assignment \<open>get_current_position\<close> reports the new latitude with the old
  longitude, altitude, satellite count and fix quality: neither the old fix nor the
  new one.
\<close>

theorem position_cache_hybrid_counterexample:
  "last (states_during_update newer_msg cached_fix)
     = fst (read_gps_data (\<lambda>line. Parsed newer_msg) 5 (Line ''$GPGGA,x'') cached_fix)
   \<and> get_current_position (states_during_update newer_msg cached_fix ! 1)
     = Some \<lparr>pos_latitude = PNum 8, pos_longitude = PNum 80, pos_altitude = PNum 12,
             pos_satellites = PStr ''07'', pos_fix_quality = PNum 1\<rparr>
   \<and> get_current_position (states_during_update newer_msg cached_fix ! 1)
     \<noteq> get_current_position cached_fix
   \<and> get_current_position (states_during_update newer_msg cached_fix ! 1)
     \<noteq> get_current_position
          (fst (read_gps_data (\<lambda>line. Parsed newer_msg) 5 (Line ''$GPGGA,x'') cached_fix))"
  by (simp add: cached_fix_def newer_msg_def states_during_update_def apply_writes_def
        fix_writes_def read_gps_data_def get_current_position_def or_zero_def upt_rec)

lemma read_gps_data_valid:
  assumes "gps_open g" "prefix ''$GPGGA'' line \<or> prefix ''$GNGGA'' line"
    "parse line = Parsed msg" "truthy (msg_latitude msg)" "truthy (msg_longitude msg)"
  shows "read_gps_data parse now (Line line) g =
           (g\<lparr>current_lat := msg_latitude msg, current_lon := msg_longitude msg,
              current_alt := or_zero (msg_altitude msg),
              satellites := or_zero (msg_num_sats msg),
              fix_quality := or_zero (msg_gps_qual msg)\<rparr>,
            Some (\<lparr>pos_latitude = msg_latitude msg, pos_longitude = msg_longitude msg,
                   pos_altitude = or_zero (msg_altitude msg),
                   pos_satellites = or_zero (msg_num_sats msg),
                   pos_fix_quality = or_zero (msg_gps_qual msg)\<rparr>, now))"
  using assms by (simp add: read_gps_data_def Let_def apply_writes_fix)

text \<open>
  C4, amended. The cache is sticky and a completed call replaces the whole fix. If
  \<open>get_current_position\<close> reports F1 and a call of \<open>read_gps_data\<close> returns None (no data,
  a serial or parse error, a sentence of another kind, a zero coordinate), the reader is
  unchanged and still reports F1; if the call returns a fix F2, then after the call
  \<open>get_current_position\<close> reports exactly the position fields of F2. And a call on an
  open port that reads a GGA sentence whose parsed latitude and longitude are truthy
  stores that sentence: it returns its fields (altitude, satellites and fix quality with
  0 for a falsy value) and \<open>get_current_position\<close> reports them afterwards, with nothing
  left of F1.
\<close>

theorem position_cache_sticky:
  assumes "get_current_position g = Some F1"
  shows "(case read_gps_data parse now ev g of
            (g', None) \<Rightarrow> g' = g \<and> get_current_position g' = Some F1
          | (g', Some (F2, t)) \<Rightarrow> get_current_position g' = Some F2)
         \<and> (gps_open g \<and> (prefix ''$GPGGA'' line \<or> prefix ''$GNGGA'' line)
              \<and> parse line = Parsed msg
              \<and> truthy (msg_latitude msg) \<and> truthy (msg_longitude msg) \<longrightarrow>
             snd (read_gps_data parse now (Line line) g)
               = Some (\<lparr>pos_latitude = msg_latitude msg, pos_longitude = msg_longitude msg,
                        pos_altitude = or_zero (msg_altitude msg),
                        pos_satellites = or_zero (msg_num_sats msg),
                        pos_fix_quality = or_zero (msg_gps_qual msg)\<rparr>, now)
             \<and> get_current_position (fst (read_gps_data parse now (Line line) g))
               = Some \<lparr>pos_latitude = msg_latitude msg, pos_longitude = msg_longitude msg,
                       pos_altitude = or_zero (msg_altitude msg),
                       pos_satellites = or_zero (msg_num_sats msg),
                       pos_fix_quality = or_zero (msg_gps_qual msg)\<rparr>)"
proof (intro conjI impI)
  show "case read_gps_data parse now ev g of
            (g', None) \<Rightarrow> g' = g \<and> get_current_position g' = Some F1
          | (g', Some (F2, t)) \<Rightarrow> get_current_position g' = Some F2"
  proof (cases "snd (read_gps_data parse now ev g)")
    case None
    from read_gps_data_None [OF None] have "fst (read_gps_data parse now ev g) = g" .
    with None assms show ?thesis
      by (cases "read_gps_data parse now ev g") simp
  next
    case (Some r)
    obtain F2 t where r: "r = (F2, t)" by (cases r)
    from Some r have "snd (read_gps_data parse now ev g) = Some (F2, t)" by simp
    from read_gps_data_Some [OF this] Some r show ?thesis
      by (cases "read_gps_data parse now ev g") simp
  qed
next
  assume v: "gps_open g \<and> (prefix ''$GPGGA'' line \<or> prefix ''$GNGGA'' line)
              \<and> parse line = Parsed msg
              \<and> truthy (msg_latitude msg) \<and> truthy (msg_longitude msg)"
  then have r: "read_gps_data parse now (Line line) g =
           (g\<lparr>current_lat := msg_latitude msg, current_lon := msg_longitude msg,
              current_alt := or_zero (msg_altitude msg),
              satellites := or_zero (msg_num_sats msg),
              fix_quality := or_zero (msg_gps_qual msg)\<rparr>,
            Some (\<lparr>pos_latitude = msg_latitude msg, pos_longitude = msg_longitude msg,
                   pos_altitude = or_zero (msg_altitude msg),
                   pos_satellites = or_zero (msg_num_sats msg),
                   pos_fix_quality = or_zero (msg_gps_qual msg)\<rparr>, now))"
    by (intro read_gps_data_valid) simp_all
  then show "snd (read_gps_data parse now (Line line) g)
               = Some (\<lparr>pos_latitude = msg_latitude msg, pos_longitude = msg_longitude msg,
                        pos_altitude = or_zero (msg_altitude msg),
                        pos_satellites = or_zero (msg_num_sats msg),
                        pos_fix_quality = or_zero (msg_gps_qual msg)\<rparr>, now)"
    by simp
  from r v show "get_current_position (fst (read_gps_data parse now (Line line) g))
               = Some \<lparr>pos_latitude = msg_latitude msg, pos_longitude = msg_longitude msg,
                       pos_altitude = or_zero (msg_altitude msg),
                       pos_satellites = or_zero (msg_num_sats msg),
                       pos_fix_quality = or_zero (msg_gps_qual msg)\<rparr>"
    by (simp add: get_current_position_def)
qed

theorem position_cache_sticky_witness:
  "get_current_position cached_fix
     = Some \<lparr>pos_latitude = PNum 7, pos_longitude = PNum 80, pos_altitude = PNum 12,
             pos_satellites = PStr ''07'', pos_fix_quality = PNum 1\<rparr>
   \<and> read_gps_data (\<lambda>line. ParseError) 5 (Line ''$GPGGA,x'') cached_fix = (cached_fix, None)
   \<and> get_current_position
        (fst (read_gps_data (\<lambda>line. ParseError) 5 (Line ''$GPGGA,x'') cached_fix))
     = Some \<lparr>pos_latitude = PNum 7, pos_longitude = PNum 80, pos_altitude = PNum 12,
             pos_satellites = PStr ''07'', pos_fix_quality = PNum 1\<rparr>
   \<and> gps_open cached_fix
   \<and> prefix ''$GPGGA'' ''$GPGGA,x''
   \<and> truthy (msg_latitude newer_msg) \<and> truthy (msg_longitude newer_msg)
   \<and> snd (read_gps_data (\<lambda>line. Parsed newer_msg) 5 (Line ''$GPGGA,x'') cached_fix)
     = Some (\<lparr>pos_latitude = PNum 8, pos_longitude = PNum 81, pos_altitude = PNum 30,
              pos_satellites = PStr ''09'', pos_fix_quality = PNum 2\<rparr>, 5)
   \<and> get_current_position
        (fst (read_gps_data (\<lambda>line. Parsed newer_msg) 5 (Line ''$GPGGA,x'') cached_fix))
     = Some \<lparr>pos_latitude = PNum 8, pos_longitude = PNum 81, pos_altitude = PNum 30,
             pos_satellites = PStr ''09'', pos_fix_quality = PNum 2\<rparr>"
proof -
  let ?F1 = "\<lparr>pos_latitude = PNum 7, pos_longitude = PNum 80, pos_altitude = PNum 12,
              pos_satellites = PStr ''07'', pos_fix_quality = PNum 1\<rparr>"
  have h: "get_current_position cached_fix = Some ?F1"
    by (simp add: get_current_position_def cached_fix_def)
  have r: "read_gps_data (\<lambda>line. ParseError) 5 (Line ''$GPGGA,x'') cached_fix = (cached_fix, None)"
    by (simp add: read_gps_data_def cached_fix_def)
  have o: "gps_open cached_fix" by (simp add: cached_fix_def)
  have p: "prefix ''$GPGGA'' ''$GPGGA,x''" by simp
  have t: "truthy (msg_latitude newer_msg)" "truthy (msg_longitude newer_msg)"
    by (simp_all add: newer_msg_def)
  have z: "or_zero (msg_altitude newer_msg) = PNum 30"
    "or_zero (msg_num_sats newer_msg) = PStr ''09''"
    "or_zero (msg_gps_qual newer_msg) = PNum 2"
    "msg_latitude newer_msg = PNum 8" "msg_longitude newer_msg = PNum 81"
    by (simp_all add: newer_msg_def or_zero_def)
  from position_cache_sticky [OF h, of "\<lambda>line. ParseError" 5 "Line ''$GPGGA,x''"
      "''$GPGGA,x''" newer_msg] r
  have a: "get_current_position
        (fst (read_gps_data (\<lambda>line. ParseError) 5 (Line ''$GPGGA,x'') cached_fix)) = Some ?F1"
    by simp
  from position_cache_sticky [OF h, of "\<lambda>line. Parsed newer_msg" 5 "Line ''$GPGGA,x''"
      "''$GPGGA,x''" newer_msg] o p t
  have b: "snd (read_gps_data (\<lambda>line. Parsed newer_msg) 5 (Line ''$GPGGA,x'') cached_fix)
     = Some (\<lparr>pos_latitude = PNum 8, pos_longitude = PNum 81, pos_altitude = PNum 30,
              pos_satellites = PStr ''09'', pos_fix_quality = PNum 2\<rparr>, 5)"
    "get_current_position
        (fst (read_gps_data (\<lambda>line. Parsed newer_msg) 5 (Line ''$GPGGA,x'') cached_fix))
     = Some \<lparr>pos_latitude = PNum 8, pos_longitude = PNum 81, pos_altitude = PNum 30,
             pos_satellites = PStr ''09'', pos_fix_quality = PNum 2\<rparr>"
    by (simp_all add: z)
  from h r a o p t b show ?thesis by (simp only: simp_thms)
qed

end
